theory Spec2Isabelle
  imports Complex_Main "HOL-Library.Multiset" "HOL-Library.Sublist" "HOL-Library.Word"
begin

unbundle bit_operations_syntax

section \<open>The ZipfAccelerator of zipf.h\<close>

text \<open>
  The class \<^verbatim>\<open>ZipfAccelerator\<close> biases the logits of a language model. Its member
  functions are embedded here as functions on an explicit state record.

  Conventions of the embedding.
  \<^item> A \<^verbatim>\<open>llama_token\<close> and every size, rank and index is a natural number, and the
    counters of the conversation state are integers without a bound. The source
    computes \<^verbatim>\<open>vocab_size * 4 / 5\<close> in a 32-bit \<^verbatim>\<open>int\<close>; the product stays inside
    that type for vocabularies of fewer than \<open>2^29\<close> tokens, and the statement about the
    two cut-offs for every vocabulary carries this bound.
  \<^item> The value of a \<^verbatim>\<open>float\<close> is a real number. \<^verbatim>\<open>initialize\<close>,
    \<^verbatim>\<open>update_context\<close> and the stages of \<^verbatim>\<open>accelerate_logits\<close> are given in exact
    arithmetic first. Where a statement depends on the rounding of 32-bit arithmetic
    (two calls of \<^verbatim>\<open>accelerate_logits\<close> in succession, \<^verbatim>\<open>get_repetition_penalty\<close>),
    the function is given with the rounding of every float operation as a parameter, and
    what is used of the rounding is a hypothesis of the statement. Scores are compared
    only, and are taken to be numbers (no NaN), which \<^verbatim>\<open>std::sort\<close> requires of its
    comparator.
  \<^item> A \<^verbatim>\<open>std::unordered_set<llama_token>\<close> is a set, a
    \<^verbatim>\<open>std::unordered_map<llama_token, float>\<close> a partial map. A range-for over such a
    container visits every element once in an order the language leaves open; the loops
    of the source that do so update the array cell of the visited token only, and are
    written cell by cell.
  \<^item> The vocabulary \<^verbatim>\<open>llama_vocab\<close> belongs to llama.cpp. It is the table of its
    entries, indexed by token id.
\<close>

subsection \<open>The vocabulary\<close>

type_synonym llama_token = nat

record token_data =
  tok_text :: string
  tok_score :: real

type_synonym llama_vocab = "token_data list"

definition n_tokens :: "llama_vocab \<Rightarrow> nat" where
  "n_tokens vocab = length vocab"

definition token_get_score :: "llama_vocab \<Rightarrow> llama_token \<Rightarrow> real" where
  "token_get_score vocab tid = tok_score (vocab ! tid)"

definition token_get_text :: "llama_vocab \<Rightarrow> llama_token \<Rightarrow> string" where
  "token_get_text vocab tid = tok_text (vocab ! tid)"

subsection \<open>Strings\<close>

text \<open>
  \<^verbatim>\<open>std::string::find_first_of\<close>, \<^verbatim>\<open>find(char)\<close> and \<^verbatim>\<open>find(string)\<close> return the
  first position of a match, or \<^verbatim>\<open>npos\<close> (here \<open>None\<close>).
\<close>

fun find_first_of :: "string \<Rightarrow> string \<Rightarrow> nat option" where
  "find_first_of [] cs = None"
| "find_first_of (c # s) cs =
     (if c \<in> set cs then Some 0 else map_option Suc (find_first_of s cs))"

definition find_char :: "string \<Rightarrow> char \<Rightarrow> nat option" where
  "find_char s c = find_first_of s [c]"

fun find_str :: "string \<Rightarrow> string \<Rightarrow> nat option" where
  "find_str [] k = (if k = [] then Some 0 else None)"
| "find_str (c # s) k =
     (if prefix k (c # s) then Some 0 else map_option Suc (find_str s k))"

text \<open>\<^verbatim>\<open>::tolower\<close> in the C locale, which the program never changes.\<close>

definition tolower :: "char \<Rightarrow> char" where
  "tolower c =
     (if (65::nat) \<le> of_char c \<and> of_char c \<le> (90::nat)
      then char_of (of_char c + (32::nat)) else c)"

definition to_lower :: "string \<Rightarrow> string" where
  "to_lower s = map tolower s"

text \<open>The characters of the literal \<^verbatim>\<open>".!?\"'"\<close> and the quotation mark.\<close>

definition punct_chars :: string where
  "punct_chars = [CHR ''.'', CHR ''!'', CHR ''?'', CHR 0x22, CHR 0x27]"

definition quote_char :: char where
  "quote_char = CHR 0x22"

subsection \<open>The state of the accelerator\<close>

record ConversationState =
  turn_count :: int
  avg_response_length :: int
  engagement_score :: real
  recent_lengths :: "int list"
  turn_frequencies :: "llama_token \<rightharpoonup> real"

record DynamicParams =
  complexity_factor :: real
  engagement_modifier :: real
  pattern_strength :: real

record ZipfAccelerator =
  base_logit_bias :: "real list"
  common_tokens :: "llama_token set"
  rare_tokens :: "llama_token set"
  punctuation :: "llama_token set"
  dialogue_tokens :: "llama_token set"
  current_role_tokens :: "llama_token set"
  current_mood_tokens :: "llama_token set"
  vocab_size :: nat
  initialized :: bool
  conv_state :: ConversationState
  params :: DynamicParams
  token_flags :: "8 word list"

definition IS_COMMON :: "8 word" where "IS_COMMON = 1"
definition IS_RARE :: "8 word" where "IS_RARE = 2"
definition IS_PUNCT :: "8 word" where "IS_PUNCT = 4"
definition IS_DIALOGUE :: "8 word" where "IS_DIALOGUE = 8"

text \<open>
  The object as its default member initialisers leave it. The source gives
  \<^verbatim>\<open>vocab_size\<close> no initial value; it is \<open>0\<close> here.
\<close>

definition fresh_accelerator :: ZipfAccelerator where
  "fresh_accelerator =
     \<lparr> base_logit_bias = [], common_tokens = {}, rare_tokens = {}, punctuation = {},
       dialogue_tokens = {}, current_role_tokens = {}, current_mood_tokens = {},
       vocab_size = 0, initialized = False,
       conv_state = \<lparr> turn_count = 0, avg_response_length = 0, engagement_score = 0,
                      recent_lengths = [], turn_frequencies = Map.empty \<rparr>,
       params = \<lparr> complexity_factor = 1, engagement_modifier = 1, pattern_strength = 1 \<rparr>,
       token_flags = [] \<rparr>"

subsection \<open>std::sort\<close>

text \<open>
  \<^verbatim>\<open>initialize\<close> sorts the pairs (token, score) with \<^verbatim>\<open>std::sort\<close> and the comparator
  \<^verbatim>\<open>a.second > b.second\<close>. The library routine is a parameter of the model. What the
  language promises of it is \<open>std_sort_spec\<close>: the result is a rearrangement of the
  input in which no element is preceded, by the comparator, by a later one. The order of
  elements that the comparator does not separate is left open.
\<close>

type_synonym scored = "llama_token \<times> real"
type_synonym sort_fn = "(scored \<Rightarrow> scored \<Rightarrow> bool) \<Rightarrow> scored list \<Rightarrow> scored list"

definition score_gt :: "scored \<Rightarrow> scored \<Rightarrow> bool" where
  "score_gt a b = (snd a > snd b)"

definition std_sort_spec :: "sort_fn \<Rightarrow> bool" where
  "std_sort_spec srt =
     (\<forall>xs. mset (srt score_gt xs) = mset xs \<and>
           sorted_wrt (\<lambda>a b. \<not> score_gt b a) (srt score_gt xs))"

text \<open>
  A routine that meets this contract: insertion sort that keeps elements of equal rank
  in their order of arrival. On the pairs of \<^verbatim>\<open>initialize\<close>, which arrive by ascending
  token id, it gives the order by descending score with ties broken by ascending token
  id.
\<close>

fun insert_sorted :: "('a \<Rightarrow> 'a \<Rightarrow> bool) \<Rightarrow> 'a \<Rightarrow> 'a list \<Rightarrow> 'a list" where
  "insert_sorted cmp x [] = [x]"
| "insert_sorted cmp x (y # ys) =
     (if cmp y x then y # insert_sorted cmp x ys else x # y # ys)"

definition sort_keeping_ties :: "('a \<Rightarrow> 'a \<Rightarrow> bool) \<Rightarrow> 'a list \<Rightarrow> 'a list" where
  "sort_keeping_ties cmp xs = foldr (insert_sorted cmp) xs []"

subsection \<open>std::sort of the GNU C++ library\<close>

text \<open>
  The README of the program names g++ as the compiler. Its library
  (\<^verbatim>\<open>bits/stl_algo.h\<close>, \<^verbatim>\<open>bits/stl_heap.h\<close>) implements \<^verbatim>\<open>std::sort\<close> as an
  introsort: on a range of more than 16 elements, quicksort steps around the median of
  three elements, with heap sort once \<open>2 * floor (log2 n)\<close> levels are used up; then
  one insertion sort over the whole range. The functions below follow those of the
  library one by one and keep their names. A range is a list together with the indices
  \<open>first\<close> and \<open>lst\<close> of its bounds, an iterator is the index it points to, and a
  function that writes to the range returns the list it leaves.

  Three loops of the library (in \<^verbatim>\<open>__unguarded_linear_insert\<close> and
  \<^verbatim>\<open>__unguarded_partition\<close>) step through the range without a test for its bounds,
  because an element of the range is known to stop them. Here they stop at the bounds
  of the list as well.
\<close>

definition iter_swap :: "nat \<Rightarrow> nat \<Rightarrow> 'a list \<Rightarrow> 'a list" where
  "iter_swap i j xs = xs[i := xs ! j, j := xs ! i]"

text \<open>\<^verbatim>\<open>std::__lg\<close>: the position of the highest bit that is set.\<close>

fun lg :: "nat \<Rightarrow> nat" where
  "lg n = (if n < 2 then 0 else Suc (lg (n div 2)))"

declare lg.simps [simp del]

fun unguarded_linear_insert :: "('a \<Rightarrow> 'a \<Rightarrow> bool) \<Rightarrow> nat \<Rightarrow> 'a \<Rightarrow> 'a list \<Rightarrow> 'a list" where
  "unguarded_linear_insert cmp lst val xs =
     (if 0 < lst \<and> cmp val (xs ! (lst - 1))
      then unguarded_linear_insert cmp (lst - 1) val (xs[lst := xs ! (lst - 1)])
      else xs[lst := val])"

declare unguarded_linear_insert.simps [simp del]

text \<open>
  One pass of the loop of \<^verbatim>\<open>__insertion_sort\<close>: an element that goes before the first
  one is moved there and the elements between move up by one
  (\<^verbatim>\<open>std::move_backward\<close>); any other element is inserted from the right.
\<close>

definition insertion_step :: "('a \<Rightarrow> 'a \<Rightarrow> bool) \<Rightarrow> nat \<Rightarrow> nat \<Rightarrow> 'a list \<Rightarrow> 'a list" where
  "insertion_step cmp first i xs =
     (if cmp (xs ! i) (xs ! first)
      then take first xs @ xs ! i # take (i - first) (drop first xs) @ drop (Suc i) xs
      else unguarded_linear_insert cmp i (xs ! i) xs)"

definition insertion_sort :: "('a \<Rightarrow> 'a \<Rightarrow> bool) \<Rightarrow> nat \<Rightarrow> nat \<Rightarrow> 'a list \<Rightarrow> 'a list" where
  "insertion_sort cmp first lst xs =
     (if first = lst then xs else fold (insertion_step cmp first) [first + 1..<lst] xs)"

definition unguarded_insertion_sort :: "('a \<Rightarrow> 'a \<Rightarrow> bool) \<Rightarrow> nat \<Rightarrow> nat \<Rightarrow> 'a list \<Rightarrow> 'a list" where
  "unguarded_insertion_sort cmp first lst xs =
     fold (\<lambda>i ys. unguarded_linear_insert cmp i (ys ! i) ys) [first..<lst] xs"

definition S_threshold :: nat where
  "S_threshold = 16"

definition final_insertion_sort :: "('a \<Rightarrow> 'a \<Rightarrow> bool) \<Rightarrow> nat \<Rightarrow> nat \<Rightarrow> 'a list \<Rightarrow> 'a list" where
  "final_insertion_sort cmp first lst xs =
     (if lst - first > S_threshold
      then unguarded_insertion_sort cmp (first + S_threshold) lst
             (insertion_sort cmp first (first + S_threshold) xs)
      else insertion_sort cmp first lst xs)"

text \<open>
  The heap functions. \<^verbatim>\<open>__adjust_heap\<close> moves the hole at \<open>holeIndex\<close> down to a leaf,
  each time pulling up the child that the comparator puts behind the other
  (\<open>sift_hole\<close> is that loop, \<open>larger_child\<close> its choice), and then lets
  \<^verbatim>\<open>__push_heap\<close> carry the value up from there.
\<close>

fun push_heap :: "('a \<Rightarrow> 'a \<Rightarrow> bool) \<Rightarrow> nat \<Rightarrow> nat \<Rightarrow> nat \<Rightarrow> 'a \<Rightarrow> 'a list \<Rightarrow> 'a list" where
  "push_heap cmp first holeIndex topIndex val xs =
     (if holeIndex > topIndex \<and> cmp (xs ! (first + (holeIndex - 1) div 2)) val
      then push_heap cmp first ((holeIndex - 1) div 2) topIndex val
             (xs[first + holeIndex := xs ! (first + (holeIndex - 1) div 2)])
      else xs[first + holeIndex := val])"

declare push_heap.simps [simp del]

definition larger_child :: "('a \<Rightarrow> 'a \<Rightarrow> bool) \<Rightarrow> nat \<Rightarrow> nat \<Rightarrow> 'a list \<Rightarrow> nat" where
  "larger_child cmp first secondChild xs =
     (if cmp (xs ! (first + 2 * (secondChild + 1))) (xs ! (first + (2 * (secondChild + 1) - 1)))
      then 2 * (secondChild + 1) - 1 else 2 * (secondChild + 1))"

function sift_hole :: "('a \<Rightarrow> 'a \<Rightarrow> bool) \<Rightarrow> nat \<Rightarrow> nat \<Rightarrow> nat \<Rightarrow> 'a list \<Rightarrow> nat \<times> 'a list" where
  "sift_hole cmp first len secondChild xs =
     (if secondChild < (len - 1) div 2
      then sift_hole cmp first len (larger_child cmp first secondChild xs)
             (xs[first + secondChild := xs ! (first + larger_child cmp first secondChild xs)])
      else (secondChild, xs))"
  by pat_completeness auto

termination
  by (relation "measure (\<lambda>(cmp, first, len, secondChild, xs). len - secondChild)")
     (auto simp: larger_child_def)

declare sift_hole.simps [simp del]

definition adjust_heap :: "('a \<Rightarrow> 'a \<Rightarrow> bool) \<Rightarrow> nat \<Rightarrow> nat \<Rightarrow> nat \<Rightarrow> 'a \<Rightarrow> 'a list \<Rightarrow> 'a list" where
  "adjust_heap cmp first holeIndex len val xs =
     (case sift_hole cmp first len holeIndex xs of
        (secondChild, ys) \<Rightarrow>
          if even len \<and> secondChild = (len - 2) div 2
          then push_heap cmp first (2 * (secondChild + 1) - 1) holeIndex val
                 (ys[first + secondChild := ys ! (first + (2 * (secondChild + 1) - 1))])
          else push_heap cmp first secondChild holeIndex val ys)"

definition make_heap :: "('a \<Rightarrow> 'a \<Rightarrow> bool) \<Rightarrow> nat \<Rightarrow> nat \<Rightarrow> 'a list \<Rightarrow> 'a list" where
  "make_heap cmp first lst xs =
     (if lst - first < 2 then xs
      else fold (\<lambda>parent ys. adjust_heap cmp first parent (lst - first) (ys ! (first + parent)) ys)
             (rev [0..<Suc ((lst - first - 2) div 2)]) xs)"

definition pop_heap :: "('a \<Rightarrow> 'a \<Rightarrow> bool) \<Rightarrow> nat \<Rightarrow> nat \<Rightarrow> nat \<Rightarrow> 'a list \<Rightarrow> 'a list" where
  "pop_heap cmp first lst result xs =
     adjust_heap cmp first 0 (lst - first) (xs ! result) (xs[result := xs ! first])"

definition heap_select :: "('a \<Rightarrow> 'a \<Rightarrow> bool) \<Rightarrow> nat \<Rightarrow> nat \<Rightarrow> nat \<Rightarrow> 'a list \<Rightarrow> 'a list" where
  "heap_select cmp first middle lst xs =
     fold (\<lambda>i ys. if cmp (ys ! i) (ys ! first) then pop_heap cmp first middle i ys else ys)
       [middle..<lst] (make_heap cmp first middle xs)"

definition sort_heap :: "('a \<Rightarrow> 'a \<Rightarrow> bool) \<Rightarrow> nat \<Rightarrow> nat \<Rightarrow> 'a list \<Rightarrow> 'a list" where
  "sort_heap cmp first lst xs =
     fold (\<lambda>l ys. pop_heap cmp first l l ys) (rev [first + 1..<lst]) xs"

definition partial_sort :: "('a \<Rightarrow> 'a \<Rightarrow> bool) \<Rightarrow> nat \<Rightarrow> nat \<Rightarrow> nat \<Rightarrow> 'a list \<Rightarrow> 'a list" where
  "partial_sort cmp first middle lst xs =
     sort_heap cmp first middle (heap_select cmp first middle lst xs)"

text \<open>
  The quicksort step. \<open>scan_up\<close> and \<open>scan_down\<close> are the two inner loops of
  \<^verbatim>\<open>__unguarded_partition\<close>, which returns the cut and the list.
\<close>

definition move_median_to_first :: "('a \<Rightarrow> 'a \<Rightarrow> bool) \<Rightarrow> nat \<Rightarrow> nat \<Rightarrow> nat \<Rightarrow> nat
    \<Rightarrow> 'a list \<Rightarrow> 'a list" where
  "move_median_to_first cmp result a b c xs =
     (if cmp (xs ! a) (xs ! b)
      then (if cmp (xs ! b) (xs ! c) then iter_swap result b xs
            else if cmp (xs ! a) (xs ! c) then iter_swap result c xs
            else iter_swap result a xs)
      else if cmp (xs ! a) (xs ! c) then iter_swap result a xs
      else if cmp (xs ! b) (xs ! c) then iter_swap result c xs
      else iter_swap result b xs)"

function scan_up :: "('a \<Rightarrow> 'a \<Rightarrow> bool) \<Rightarrow> 'a list \<Rightarrow> nat \<Rightarrow> nat \<Rightarrow> nat" where
  "scan_up cmp xs pivot first =
     (if first < length xs \<and> cmp (xs ! first) (xs ! pivot)
      then scan_up cmp xs pivot (Suc first) else first)"
  by pat_completeness auto

termination
  by (relation "measure (\<lambda>(cmp, xs, pivot, first). length xs - first)") auto

declare scan_up.simps [simp del]

fun scan_down :: "('a \<Rightarrow> 'a \<Rightarrow> bool) \<Rightarrow> 'a list \<Rightarrow> nat \<Rightarrow> nat \<Rightarrow> nat" where
  "scan_down cmp xs pivot lst =
     (if 0 < lst \<and> cmp (xs ! pivot) (xs ! lst)
      then scan_down cmp xs pivot (lst - 1) else lst)"

declare scan_down.simps [simp del]

function unguarded_partition :: "('a \<Rightarrow> 'a \<Rightarrow> bool) \<Rightarrow> nat \<Rightarrow> nat \<Rightarrow> nat \<Rightarrow> 'a list
    \<Rightarrow> nat \<times> 'a list" where
  "unguarded_partition cmp first lst pivot xs =
     (if \<not> scan_up cmp xs pivot first < scan_down cmp xs pivot (lst - 1)
      then (scan_up cmp xs pivot first, xs)
      else unguarded_partition cmp (Suc (scan_up cmp xs pivot first))
             (scan_down cmp xs pivot (lst - 1)) pivot
             (iter_swap (scan_up cmp xs pivot first) (scan_down cmp xs pivot (lst - 1)) xs))"
  by pat_completeness auto

termination
proof (relation "measure (\<lambda>(cmp, first, lst, pivot, xs). lst - first)", goal_cases)
  case 1
  show ?case by simp
next
  case (2 cmp first lst pivot xs)
  have up: "i \<le> scan_up c ys p i" for c :: "'a \<Rightarrow> 'a \<Rightarrow> bool" and ys p i
    by (induction c ys p i rule: scan_up.induct) (subst scan_up.simps, auto)
  have down: "scan_down c ys p i \<le> i" for c :: "'a \<Rightarrow> 'a \<Rightarrow> bool" and ys p i
    by (induction c ys p i rule: scan_down.induct) (subst scan_down.simps, auto)
  from 2 up[of first cmp xs pivot] down[of cmp xs pivot "lst - 1"] show ?case
    by simp
qed

declare unguarded_partition.simps [simp del]

definition unguarded_partition_pivot :: "('a \<Rightarrow> 'a \<Rightarrow> bool) \<Rightarrow> nat \<Rightarrow> nat \<Rightarrow> 'a list
    \<Rightarrow> nat \<times> 'a list" where
  "unguarded_partition_pivot cmp first lst xs =
     unguarded_partition cmp (first + 1) lst first
       (move_median_to_first cmp first (first + 1) (first + (lst - first) div 2) (lst - 1) xs)"

text \<open>
  \<^verbatim>\<open>__introsort_loop\<close> sorts the part behind the cut by a call of itself and goes on
  with the part before the cut in its own loop; both work with the depth limit that the
  step has lowered by one, and on parts of the range that do not meet.
\<close>

function introsort_loop :: "('a \<Rightarrow> 'a \<Rightarrow> bool) \<Rightarrow> nat \<Rightarrow> nat \<Rightarrow> nat \<Rightarrow> 'a list \<Rightarrow> 'a list" where
  "introsort_loop cmp first lst depth_limit xs =
     (if lst - first > S_threshold
      then (if depth_limit = 0 then partial_sort cmp first lst lst xs
            else (case unguarded_partition_pivot cmp first lst xs of
                    (cutpos, ys) \<Rightarrow>
                      introsort_loop cmp first cutpos (depth_limit - 1)
                        (introsort_loop cmp cutpos lst (depth_limit - 1) ys)))
      else xs)"
  by pat_completeness auto

termination
  by (relation "measure (\<lambda>(cmp, first, lst, depth_limit, xs). depth_limit)") auto

declare introsort_loop.simps [simp del]

definition libstdcxx_sort :: "('a \<Rightarrow> 'a \<Rightarrow> bool) \<Rightarrow> 'a list \<Rightarrow> 'a list" where
  "libstdcxx_sort cmp xs =
     (if xs = [] then xs
      else final_insertion_sort cmp 0 (length xs)
             (introsort_loop cmp 0 (length xs) (lg (length xs) * 2) xs))"

subsection \<open>initialize\<close>

text \<open>\<^verbatim>\<open>std::vector::resize(n, v)\<close> cuts the vector to \<open>n\<close> entries or fills it up with \<open>v\<close>.\<close>

definition resize :: "nat \<Rightarrow> 'a \<Rightarrow> 'a list \<Rightarrow> 'a list" where
  "resize n v xs = take n xs @ replicate (n - length xs) v"

definition token_scores :: "llama_vocab \<Rightarrow> scored list" where
  "token_scores vocab = map (\<lambda>tid. (tid, token_get_score vocab tid)) [0..<n_tokens vocab]"

text \<open>The local \<^verbatim>\<open>token_scores\<close> after the call of \<^verbatim>\<open>std::sort\<close>.\<close>

definition ranked_scores :: "sort_fn \<Rightarrow> llama_vocab \<Rightarrow> scored list" where
  "ranked_scores srt vocab = srt score_gt (token_scores vocab)"

definition rank_order :: "sort_fn \<Rightarrow> llama_vocab \<Rightarrow> llama_token list" where
  "rank_order srt vocab = map fst (ranked_scores srt vocab)"

definition common_cutoff_of :: "nat \<Rightarrow> nat" where
  "common_cutoff_of n = min 500 (n div 10)"

definition rare_cutoff_of :: "nat \<Rightarrow> nat" where
  "rare_cutoff_of n = n * 4 div 5"

text \<open>One pass of the loop over the ranks.\<close>

definition categorize :: "llama_vocab \<Rightarrow> scored list \<Rightarrow> nat \<Rightarrow> nat \<Rightarrow> nat
    \<Rightarrow> ZipfAccelerator \<Rightarrow> ZipfAccelerator" where
  "categorize vocab ranked common_cutoff rare_cutoff rank z =
     (let token = fst (ranked ! rank);
          token_text = token_get_text vocab token;
          z1 = (if rank < common_cutoff
                then z\<lparr>common_tokens := insert token (common_tokens z)\<rparr> else z);
          z2 = (if rank > rare_cutoff
                then z1\<lparr>rare_tokens := insert token (rare_tokens z1)\<rparr> else z1);
          z3 = (if find_first_of token_text punct_chars \<noteq> None
                then (let z' = z2\<lparr>punctuation := insert token (punctuation z2)\<rparr>
                      in if find_char token_text quote_char \<noteq> None
                         then z'\<lparr>dialogue_tokens := insert token (dialogue_tokens z')\<rparr>
                         else z')
                else z2);
          zipf_factor = 1 / (real rank + 1) powr 0.3
      in z3\<lparr>base_logit_bias := (base_logit_bias z3)[token := ln zipf_factor]\<rparr>)"

text \<open>\<open>or_flag S b\<close> is the loop \<^verbatim>\<open>for (token : S) token_flags[token] |= b\<close>.\<close>

definition or_flag :: "llama_token set \<Rightarrow> 8 word \<Rightarrow> 8 word list \<Rightarrow> 8 word list" where
  "or_flag S b flags = map (\<lambda>t. if t \<in> S then flags ! t OR b else flags ! t) [0..<length flags]"

definition initialize :: "sort_fn \<Rightarrow> llama_vocab \<Rightarrow> ZipfAccelerator \<Rightarrow> ZipfAccelerator" where
  "initialize srt vocab z =
     (let z0 = z\<lparr>vocab_size := n_tokens vocab,
                 base_logit_bias := resize (n_tokens vocab) 0 (base_logit_bias z)\<rparr>;
          ranked = ranked_scores srt vocab;
          z1 = z0\<lparr>common_tokens := {}, rare_tokens := {}, punctuation := {},
                  dialogue_tokens := {}\<rparr>;
          common_cutoff = common_cutoff_of (vocab_size z1);
          rare_cutoff = rare_cutoff_of (vocab_size z1);
          z2 = fold (categorize vocab ranked common_cutoff rare_cutoff) [0..<vocab_size z1] z1;
          flags = or_flag (dialogue_tokens z2) IS_DIALOGUE
                    (or_flag (punctuation z2) IS_PUNCT
                      (or_flag (rare_tokens z2) IS_RARE
                        (or_flag (common_tokens z2) IS_COMMON
                          (resize (vocab_size z2) 0 (token_flags z2)))))
      in z2\<lparr>token_flags := flags, initialized := True\<rparr>)"

subsection \<open>update_context\<close>

definition role_map :: "(string \<times> string list) list" where
  "role_map =
     [(''guard'', [''guard'', ''watch'', ''protect'', ''duty'', ''patrol'', ''secure'', ''defend'']),
      (''tavernkeeper'', [''tavern'', ''ale'', ''drink'', ''brew'', ''welcome'', ''inn'', ''guest'', ''room'']),
      (''scribe'', [''scroll'', ''write'', ''record'', ''ink'', ''quill'', ''document'', ''archive'', ''knowledge'']),
      (''merchant'', [''gold'', ''coin'', ''trade'', ''sell'', ''buy'', ''price'', ''goods'', ''wares'']),
      (''knight'', [''honor'', ''sword'', ''shield'', ''oath'', ''noble'', ''quest'', ''chivalry'']),
      (''wizard'', [''magic'', ''spell'', ''arcane'', ''tome'', ''staff'', ''enchant'', ''ritual''])]"

definition get_role_keywords :: "string \<Rightarrow> string list" where
  "get_role_keywords role = (case map_of role_map role of Some ks \<Rightarrow> ks | None \<Rightarrow> [])"

definition mood_map :: "(string \<times> string list) list" where
  "mood_map =
     [(''friendly'', [''pleased'', ''welcome'', ''glad'', ''happy'', ''kind'', ''warm'', ''cheerful'']),
      (''rude'', [''annoyed'', ''irritated'', ''bah'', ''hmph'', ''whatever'', ''fool'', ''waste'']),
      (''suspicious'', [''wary'', ''careful'', ''suspicious'', ''doubt'', ''trust'', ''watch'', ''unsure'']),
      (''deferential'', [''sir'', ''madam'', ''honor'', ''respect'', ''please'', ''apologize'', ''forgive'']),
      (''stoic'', [''indeed'', ''understood'', ''very well'', ''quite'', ''certainly''])]"

definition get_mood_keywords :: "string \<Rightarrow> string list" where
  "get_mood_keywords mood = (case map_of mood_map mood of Some ks \<Rightarrow> ks | None \<Rightarrow> [])"

definition clamp :: "real \<Rightarrow> real \<Rightarrow> real \<Rightarrow> real" where
  "clamp v lo hi = (if v < lo then lo else if hi < v then hi else v)"

definition update_complexity_factor :: "ZipfAccelerator \<Rightarrow> ZipfAccelerator" where
  "update_complexity_factor z =
     (let lens = recent_lengths (conv_state z);
          avg_length = (if lens \<noteq> []
                        then foldl (\<lambda>acc n. acc + real_of_int n) 0 lens / real (length lens)
                        else 0);
          cf = complexity_factor (params z);
          cf1 = (if avg_length < 20 then cf * 0.9
                 else if avg_length > 50 then cf * 1.1 else cf)
      in z\<lparr>params := (params z)\<lparr>complexity_factor := clamp cf1 0.5 2.0\<rparr>\<rparr>)"

text \<open>
  One pass of the loop over the token ids. Each inner loop over the keywords stops at the
  first keyword found, so it inserts the id when some keyword occurs in the text.
\<close>

definition match_context :: "llama_vocab \<Rightarrow> string list \<Rightarrow> string list \<Rightarrow> llama_token
    \<Rightarrow> ZipfAccelerator \<Rightarrow> ZipfAccelerator" where
  "match_context vocab role_keywords mood_keywords tid z =
     (let token_text = token_get_text vocab tid;
          lower_text = to_lower token_text;
          z1 = (if list_ex (\<lambda>keyword. find_str lower_text keyword \<noteq> None) role_keywords
                then z\<lparr>current_role_tokens := insert tid (current_role_tokens z)\<rparr> else z)
      in if list_ex (\<lambda>keyword. find_str lower_text keyword \<noteq> None) mood_keywords
         then z1\<lparr>current_mood_tokens := insert tid (current_mood_tokens z1)\<rparr> else z1)"

definition update_context :: "string \<Rightarrow> string \<Rightarrow> llama_vocab \<Rightarrow> ZipfAccelerator
    \<Rightarrow> ZipfAccelerator" where
  "update_context role mood vocab z =
     (let z0 = z\<lparr>current_role_tokens := {}, current_mood_tokens := {}\<rparr>;
          role_keywords = get_role_keywords role;
          mood_keywords = get_mood_keywords mood;
          z1 = fold (match_context vocab role_keywords mood_keywords) [0..<vocab_size z0] z0;
          cs = conv_state z1;
          cs1 = cs\<lparr>turn_count := turn_count cs + 1\<rparr>;
          cs2 = (if length (recent_lengths cs1) \<ge> 5
                 then cs1\<lparr>recent_lengths := tl (recent_lengths cs1)\<rparr> else cs1)
      in update_complexity_factor (z1\<lparr>conv_state := cs2\<rparr>))"

subsection \<open>accelerate_logits\<close>

text \<open>
  \<open>add_to_tokens S b\<close> is the loop \<^verbatim>\<open>for (token : S) logits[token] += b\<close>. The body of
  \<^verbatim>\<open>accelerate_logits\<close> is given stage by stage, in the order of the source: the base
  bias of every token, the boosts of the role and mood tokens, the dialogue-flow step,
  and \<^verbatim>\<open>apply_conversation_patterns\<close>.
\<close>

definition add_to_tokens :: "llama_token set \<Rightarrow> real \<Rightarrow> real list \<Rightarrow> real list" where
  "add_to_tokens S b logits =
     map (\<lambda>t. if t \<in> S then logits ! t + b else logits ! t) [0..<length logits]"

definition apply_base_bias :: "ZipfAccelerator \<Rightarrow> real list \<Rightarrow> real list" where
  "apply_base_bias z logits =
     fold (\<lambda>i l. l[i := l ! i + base_logit_bias z ! i * complexity_factor (params z)])
       [0..<vocab_size z] logits"

definition apply_context_boosts :: "ZipfAccelerator \<Rightarrow> int \<Rightarrow> real list \<Rightarrow> real list" where
  "apply_context_boosts z context_length logits =
     (let role_boost = 0.5 * engagement_modifier (params z);
          mood_boost = 0.3 * engagement_modifier (params z);
          role_boost' = (if context_length < 10 then role_boost * 1.5 else role_boost);
          mood_boost' = (if context_length < 10 then mood_boost * 1.5 else mood_boost)
      in add_to_tokens (current_mood_tokens z) mood_boost'
           (add_to_tokens (current_role_tokens z) role_boost' logits))"

definition suppress_dialogue_enders :: "ZipfAccelerator \<Rightarrow> real list \<Rightarrow> real list" where
  "suppress_dialogue_enders z logits =
     map (\<lambda>t. if t \<in> dialogue_tokens z \<and> t \<in> punctuation z then logits ! t - 2.0
              else logits ! t) [0..<length logits]"

definition boost_dialogue_enders :: "ZipfAccelerator \<Rightarrow> real list \<Rightarrow> real \<Rightarrow> real list" where
  "boost_dialogue_enders z logits boost = add_to_tokens (dialogue_tokens z) boost logits"

definition MAX_RESPONSE_LENGTH :: int where
  "MAX_RESPONSE_LENGTH = 200"

definition completion_ratio :: "int \<Rightarrow> real" where
  "completion_ratio min_tokens_remaining =
     1.0 - real_of_int min_tokens_remaining / real_of_int MAX_RESPONSE_LENGTH"

definition dialogue_flow :: "ZipfAccelerator \<Rightarrow> int \<Rightarrow> real list \<Rightarrow> real list" where
  "dialogue_flow z min_tokens_remaining logits =
     (let dialogue_boost = 0.4 * pattern_strength (params z);
          ratio = completion_ratio min_tokens_remaining
      in if ratio < 0.6 then suppress_dialogue_enders z logits
         else boost_dialogue_enders z logits (dialogue_boost * ratio))"

definition apply_conversation_patterns :: "ZipfAccelerator \<Rightarrow> real list \<Rightarrow> int \<Rightarrow> real list" where
  "apply_conversation_patterns z logits context_length =
     map (\<lambda>t. case turn_frequencies (conv_state z) t of
                None \<Rightarrow> logits ! t
              | Some freq \<Rightarrow> if freq > 0.1 then logits ! t + 0.2 * pattern_strength (params z)
                             else logits ! t)
       [0..<length logits]"

definition accelerate_logits :: "ZipfAccelerator \<Rightarrow> real list \<Rightarrow> int \<Rightarrow> int \<Rightarrow> real list" where
  "accelerate_logits z logits context_length min_tokens_remaining =
     (if \<not> initialized z then logits
      else apply_conversation_patterns z
             (dialogue_flow z min_tokens_remaining
               (apply_context_boosts z context_length (apply_base_bias z logits)))
             context_length)"

subsection \<open>32-bit floats\<close>

text \<open>
  The finite values of a \<^verbatim>\<open>float\<close> (IEEE 754 binary32) are the numbers \<open>m * 2^e\<close> with
  \<open>\<bar>m\<bar> < 2^24\<close> and \<open>- 149 \<le> e \<le> 104\<close>, written here \<open>m * 2^k / 2^149\<close> with
  \<open>k = e + 149\<close>; the largest is \<open>max_f32\<close>. An operation on floats gives the exact
  result rounded to a float. The rounding is a parameter \<open>rnd\<close> of the functions below.
  \<open>rounds_to_nearest\<close> is what the default rounding mode promises of it wherever the
  exact result does not overflow: the result is a float, and no other float is nearer to
  the exact result (which of two nearest floats is taken is left open). The program calls
  \<^verbatim>\<open>std::pow\<close> on floats; that it rounds in the same way is taken as its contract.
  \<open>round_f32\<close> is one such rounding.
\<close>

definition f32 :: "real set" where
  "f32 = (\<lambda>(m, k). real_of_int m * 2 ^ k / 2 ^ 149) `
           ({- 16777215 .. 16777215} \<times> {0 .. 253 :: nat})"


definition nearest_f32 :: "real \<Rightarrow> real \<Rightarrow> bool" where
  "nearest_f32 v r \<longleftrightarrow> r \<in> f32 \<and> (\<forall>f \<in> f32. \<bar>r - v\<bar> \<le> \<bar>f - v\<bar>)"


definition round_f32 :: "real \<Rightarrow> real" where
  "round_f32 v = arg_min_on (\<lambda>f. \<bar>f - v\<bar>) f32"

subsection \<open>accelerate_logits on floats\<close>

text \<open>
  \<^verbatim>\<open>accelerate_logits\<close> once more, stage by stage as above, with the rounding of every
  float operation: a literal such as \<^verbatim>\<open>0.3f\<close> is \<open>rnd 0.3\<close>, and
  \<^verbatim>\<open>logits[i] += b * c\<close> stores \<open>rnd (logits[i] + rnd (b * c))\<close>. With the identity for
  \<open>rnd\<close> these are the functions above.
\<close>

definition add_to_tokens_f32 :: "(real \<Rightarrow> real) \<Rightarrow> llama_token set \<Rightarrow> real \<Rightarrow> real list
    \<Rightarrow> real list" where
  "add_to_tokens_f32 rnd S b logits =
     map (\<lambda>t. if t \<in> S then rnd (logits ! t + b) else logits ! t) [0..<length logits]"

definition apply_base_bias_f32 :: "(real \<Rightarrow> real) \<Rightarrow> ZipfAccelerator \<Rightarrow> real list \<Rightarrow> real list" where
  "apply_base_bias_f32 rnd z logits =
     fold (\<lambda>i l. l[i := rnd (l ! i + rnd (base_logit_bias z ! i * complexity_factor (params z)))])
       [0..<vocab_size z] logits"

definition apply_context_boosts_f32 :: "(real \<Rightarrow> real) \<Rightarrow> ZipfAccelerator \<Rightarrow> int \<Rightarrow> real list
    \<Rightarrow> real list" where
  "apply_context_boosts_f32 rnd z context_length logits =
     (let role_boost = rnd (rnd 0.5 * engagement_modifier (params z));
          mood_boost = rnd (rnd 0.3 * engagement_modifier (params z));
          role_boost' = (if context_length < 10 then rnd (role_boost * rnd 1.5) else role_boost);
          mood_boost' = (if context_length < 10 then rnd (mood_boost * rnd 1.5) else mood_boost)
      in add_to_tokens_f32 rnd (current_mood_tokens z) mood_boost'
           (add_to_tokens_f32 rnd (current_role_tokens z) role_boost' logits))"

definition suppress_dialogue_enders_f32 :: "(real \<Rightarrow> real) \<Rightarrow> ZipfAccelerator \<Rightarrow> real list
    \<Rightarrow> real list" where
  "suppress_dialogue_enders_f32 rnd z logits =
     map (\<lambda>t. if t \<in> dialogue_tokens z \<and> t \<in> punctuation z then rnd (logits ! t - rnd 2.0)
              else logits ! t) [0..<length logits]"

definition boost_dialogue_enders_f32 :: "(real \<Rightarrow> real) \<Rightarrow> ZipfAccelerator \<Rightarrow> real list \<Rightarrow> real
    \<Rightarrow> real list" where
  "boost_dialogue_enders_f32 rnd z logits boost = add_to_tokens_f32 rnd (dialogue_tokens z) boost logits"

definition completion_ratio_f32 :: "(real \<Rightarrow> real) \<Rightarrow> int \<Rightarrow> real" where
  "completion_ratio_f32 rnd min_tokens_remaining =
     rnd (rnd 1.0 - rnd (rnd (real_of_int min_tokens_remaining)
                           / rnd (real_of_int MAX_RESPONSE_LENGTH)))"

definition dialogue_flow_f32 :: "(real \<Rightarrow> real) \<Rightarrow> ZipfAccelerator \<Rightarrow> int \<Rightarrow> real list
    \<Rightarrow> real list" where
  "dialogue_flow_f32 rnd z min_tokens_remaining logits =
     (let dialogue_boost = rnd (rnd 0.4 * pattern_strength (params z));
          ratio = completion_ratio_f32 rnd min_tokens_remaining
      in if ratio < rnd 0.6 then suppress_dialogue_enders_f32 rnd z logits
         else boost_dialogue_enders_f32 rnd z logits (rnd (dialogue_boost * ratio)))"

definition apply_conversation_patterns_f32 :: "(real \<Rightarrow> real) \<Rightarrow> ZipfAccelerator \<Rightarrow> real list
    \<Rightarrow> int \<Rightarrow> real list" where
  "apply_conversation_patterns_f32 rnd z logits context_length =
     map (\<lambda>t. case turn_frequencies (conv_state z) t of
                None \<Rightarrow> logits ! t
              | Some freq \<Rightarrow> if freq > rnd 0.1
                             then rnd (logits ! t + rnd (rnd 0.2 * pattern_strength (params z)))
                             else logits ! t)
       [0..<length logits]"

definition accelerate_logits_f32 :: "(real \<Rightarrow> real) \<Rightarrow> ZipfAccelerator \<Rightarrow> real list \<Rightarrow> int
    \<Rightarrow> int \<Rightarrow> real list" where
  "accelerate_logits_f32 rnd z logits context_length min_tokens_remaining =
     (if \<not> initialized z then logits
      else apply_conversation_patterns_f32 rnd z
             (dialogue_flow_f32 rnd z min_tokens_remaining
               (apply_context_boosts_f32 rnd z context_length (apply_base_bias_f32 rnd z logits)))
             context_length)"

subsection \<open>get_repetition_penalty\<close>


subsection \<open>What a call of accelerate_logits adds\<close>


definition net_bias :: "ZipfAccelerator \<Rightarrow> int \<Rightarrow> int \<Rightarrow> llama_token \<Rightarrow> real" where
  "net_bias z context_length min_tokens_remaining t =
     (if \<not> initialized z then 0
      else (if t < vocab_size z then base_logit_bias z ! t * complexity_factor (params z) else 0)
         + (if t \<in> current_role_tokens z
            then (if context_length < 10 then 0.5 * engagement_modifier (params z) * 1.5
                  else 0.5 * engagement_modifier (params z))
            else 0)
         + (if t \<in> current_mood_tokens z
            then (if context_length < 10 then 0.3 * engagement_modifier (params z) * 1.5
                  else 0.3 * engagement_modifier (params z))
            else 0)
         + (if completion_ratio min_tokens_remaining < 0.6
            then (if t \<in> dialogue_tokens z \<and> t \<in> punctuation z then - 2 else 0)
            else (if t \<in> dialogue_tokens z
                  then 0.4 * pattern_strength (params z) * completion_ratio min_tokens_remaining
                  else 0))
         + (case turn_frequencies (conv_state z) t of
              None \<Rightarrow> 0
            | Some freq \<Rightarrow> if freq > 0.1 then 0.2 * pattern_strength (params z) else 0))"







subsection \<open>Vocabularies and states used below\<close>

text \<open>
  The vocabulary of \<open>n\<close> tokens in which token \<open>i\<close> has the score \<open>n - i\<close>, whatever its
  text; a vocabulary of two tokens of equal score; one of three tokens of different
  scores.
\<close>

definition descending_vocab :: "nat \<Rightarrow> (nat \<Rightarrow> string) \<Rightarrow> llama_vocab" where
  "descending_vocab n txt = map (\<lambda>i. \<lparr>tok_text = txt i, tok_score = real n - real i\<rparr>) [0..<n]"

definition tied_pair :: llama_vocab where
  "tied_pair = [\<lparr>tok_text = ''a'', tok_score = 1\<rparr>, \<lparr>tok_text = ''b'', tok_score = 1\<rparr>]"

definition distinct_triple :: llama_vocab where
  "distinct_triple = [\<lparr>tok_text = ''a'', tok_score = 2\<rparr>, \<lparr>tok_text = ''b'', tok_score = 5\<rparr>,
     \<lparr>tok_text = ''c'', tok_score = 3\<rparr>]"

text \<open>
  Three tokens, the second a quotation mark and the third a full stop; three tokens for
  the role guard and the mood friendly, with a state that holds matches of an earlier
  turn; a state with one dialogue token; a vocabulary of one token and the object built
  from it.
\<close>

definition quoted_vocab :: llama_vocab where
  "quoted_vocab = [\<lparr>tok_text = ''hi'', tok_score = 3\<rparr>,
                   \<lparr>tok_text = [CHR 0x22], tok_score = 2\<rparr>,
                   \<lparr>tok_text = ''.'', tok_score = 1\<rparr>]"

definition persona_vocab :: llama_vocab where
  "persona_vocab = [\<lparr>tok_text = ''Guard'', tok_score = 3\<rparr>,
                    \<lparr>tok_text = ''WATCHful ale'', tok_score = 2\<rparr>,
                    \<lparr>tok_text = ''happy'', tok_score = 1\<rparr>]"

definition persona_state :: ZipfAccelerator where
  "persona_state = fresh_accelerator\<lparr>vocab_size := 3, current_role_tokens := {2},
      current_mood_tokens := {0}\<rparr>"




text \<open>
  Seventeen tokens of equal score; the object built from the three tokens above; an
  object with one token that matches the role, its bias 0; an object in which token 0 is
  common.
\<close>

definition seventeen_ties :: llama_vocab where
  "seventeen_ties = map (\<lambda>i. \<lparr>tok_text = ''a'', tok_score = 1\<rparr>) [0..<17]"

definition quoted_state :: ZipfAccelerator where
  "quoted_state = initialize sort_keeping_ties quoted_vocab fresh_accelerator"



section \<open>Properties\<close>

subsection \<open>Loops and small index sets\<close>

lemma fold_field_preserved:
  assumes "\<And>x s. F (step x s) = F s"
  shows "F (fold step xs s) = F s"
  using assms by (induction xs arbitrary: s) simp_all

lemma fold_insert_field:
  assumes "\<And>r s. F (step r s) = (if P r then insert (g r) (F s) else F s)"
  shows "F (fold step rs s) = F s \<union> g ` {r \<in> set rs. P r}"
  using assms by (induction rs arbitrary: s) auto

lemma length_fold_update:
  "length (fold (\<lambda>i l. l[i := g i l]) is l) = length l"
  by (induction "is" arbitrary: l) simp_all

lemma nth_fold_add:
  "t < length l \<Longrightarrow>
   fold (\<lambda>i l. l[i := l ! i + f i]) [0..<n] l ! t = (if t < n then l ! t + f t else l ! t)"
proof (induction n)
  case 0
  then show ?case by simp
next
  case (Suc n)
  then show ?case
    by (cases "t = n") (simp_all add: length_fold_update)
qed

lemma three_cases: "t < (3::nat) \<Longrightarrow> t = 0 \<or> t = Suc 0 \<or> t = 2"
  by arith

lemma set_below_three:
  "{t. t < (3::nat) \<and> P t} =
     (if P 0 then {0} else {}) \<union> (if P (Suc 0) then {Suc 0} else {}) \<union> (if P 2 then {2} else {})"
  by (auto dest: three_cases)

lemma below_three: "t < (3::nat) \<longleftrightarrow> t = 0 \<or> t = 1 \<or> t = 2"
  by auto

subsection \<open>Searching in strings\<close>

lemma find_first_of_iff: "find_first_of s cs \<noteq> None \<longleftrightarrow> (\<exists>c \<in> set s. c \<in> set cs)"
  by (induction s) auto

lemma find_char_iff: "find_char s c \<noteq> None \<longleftrightarrow> c \<in> set s"
  unfolding find_char_def find_first_of_iff by simp

lemma quote_is_punct: "quote_char \<in> set punct_chars"
  by (simp add: quote_char_def punct_chars_def)

lemma find_str_iff: "find_str s k \<noteq> None \<longleftrightarrow> sublist k s"
  by (induction s) (auto simp: sublist_Cons_right)

lemma keyword_found_iff:
  "list_ex (\<lambda>keyword. find_str s keyword \<noteq> None) ks \<longleftrightarrow> (\<exists>k \<in> set ks. sublist k s)"
  unfolding list_ex_iff find_str_iff ..

subsection \<open>Sorting routines that meet the contract\<close>

lemma mset_insert_sorted: "mset (insert_sorted cmp x ys) = add_mset x (mset ys)"
  by (induction ys) simp_all

lemma set_insert_sorted: "set (insert_sorted cmp x ys) = insert x (set ys)"
  by (induction ys) auto

lemma sorted_insert_sorted:
  assumes "sorted_wrt (\<lambda>a b. \<not> score_gt b a) ys"
  shows "sorted_wrt (\<lambda>a b. \<not> score_gt b a) (insert_sorted score_gt x ys)"
  using assms
  by (induction ys) (auto simp: set_insert_sorted score_gt_def)

lemma mset_sort_keeping_ties: "mset (sort_keeping_ties cmp xs) = mset xs"
  by (induction xs) (simp_all add: sort_keeping_ties_def mset_insert_sorted)

lemma sorted_sort_keeping_ties:
  "sorted_wrt (\<lambda>a b. \<not> score_gt b a) (sort_keeping_ties score_gt xs)"
  by (induction xs) (simp_all add: sort_keeping_ties_def sorted_insert_sorted)

lemma sort_keeping_ties_meets_spec: "std_sort_spec sort_keeping_ties"
  by (simp add: std_sort_spec_def mset_sort_keeping_ties sorted_sort_keeping_ties)

lemma sorted_by_score_unique:
  assumes m: "mset ys = mset zs"
    and d: "distinct (map snd ys)"
    and sy: "sorted_wrt (\<lambda>a b. \<not> score_gt b a) ys"
    and sz: "sorted_wrt (\<lambda>a b. \<not> score_gt b a) zs"
  shows "ys = (zs :: scored list)"
proof -
  have km: "mset (map snd ys) = mset (map snd zs)"
    using m by (metis mset_map)
  have dz: "distinct (map snd zs)"
    using km d by (metis mset_eq_imp_distinct_iff)
  have strict: "sorted_wrt (<) (rev (map snd xs))"
    if "sorted_wrt (\<lambda>a b. \<not> score_gt b a) xs" "distinct (map snd xs)" for xs :: "scored list"
  proof -
    have "sorted_wrt (\<lambda>a b. b \<le> a) (map snd xs)"
      using that(1) by (simp add: sorted_wrt_map score_gt_def not_less)
    then have "sorted (rev (map snd xs))"
      by (simp add: sorted_wrt_rev)
    then show ?thesis
      using that(2) by (simp add: strict_sorted_iff)
  qed
  have "rev (map snd ys) = rev (map snd zs)"
    using strict[OF sy d] strict[OF sz dz] km
    by (metis strict_sorted_equal mset_eq_setD set_rev)
  then have keys: "map snd ys = map snd zs"
    by simp
  have "set ys = set zs"
    using m by (rule mset_eq_setD)
  then have "inj_on snd (set ys \<union> set zs)"
    using d by (simp add: distinct_map)
  with keys show ?thesis
    by (rule map_inj_on)
qed

subsection \<open>The rank order\<close>

lemma map_fst_token_scores: "map fst (token_scores vocab) = [0..<n_tokens vocab]"
  by (simp add: token_scores_def comp_def)

lemma snd_token_scores:
  "p \<in> set (token_scores vocab) \<Longrightarrow> snd p = token_get_score vocab (fst p)"
  by (auto simp: token_scores_def)

lemma mset_ranked_scores:
  "std_sort_spec srt \<Longrightarrow> mset (ranked_scores srt vocab) = mset (token_scores vocab)"
  by (simp add: std_sort_spec_def ranked_scores_def)

lemma sorted_ranked_scores:
  "std_sort_spec srt \<Longrightarrow> sorted_wrt (\<lambda>a b. \<not> score_gt b a) (ranked_scores srt vocab)"
  by (simp add: std_sort_spec_def ranked_scores_def)

lemma length_ranked_scores:
  "std_sort_spec srt \<Longrightarrow> length (ranked_scores srt vocab) = n_tokens vocab"
  using mset_ranked_scores[THEN arg_cong, of srt size vocab]
  by (simp add: token_scores_def)

lemma mset_rank_order:
  "std_sort_spec srt \<Longrightarrow> mset (rank_order srt vocab) = mset [0..<n_tokens vocab]"
  using mset_ranked_scores[THEN arg_cong, of srt "image_mset fst" vocab]
  by (simp add: rank_order_def flip: map_fst_token_scores)

lemma distinct_rank_order: "std_sort_spec srt \<Longrightarrow> distinct (rank_order srt vocab)"
  using mset_rank_order[of srt vocab] by (metis distinct_upt mset_eq_imp_distinct_iff)

lemma set_rank_order: "std_sort_spec srt \<Longrightarrow> set (rank_order srt vocab) = {0..<n_tokens vocab}"
  using mset_rank_order[of srt vocab] by (metis atLeastLessThan_upt mset_eq_setD)

lemma length_rank_order: "std_sort_spec srt \<Longrightarrow> length (rank_order srt vocab) = n_tokens vocab"
  by (simp add: rank_order_def length_ranked_scores)

lemma rank_order_nth:
  "std_sort_spec srt \<Longrightarrow> r < n_tokens vocab \<Longrightarrow>
   fst (ranked_scores srt vocab ! r) = rank_order srt vocab ! r"
  by (simp add: rank_order_def length_ranked_scores)

lemma snd_ranked_scores:
  assumes "std_sort_spec srt" "r < n_tokens vocab"
  shows "snd (ranked_scores srt vocab ! r) = token_get_score vocab (rank_order srt vocab ! r)"
proof -
  have "ranked_scores srt vocab ! r \<in> set (ranked_scores srt vocab)"
    using assms by (simp add: length_ranked_scores)
  then have "ranked_scores srt vocab ! r \<in> set (token_scores vocab)"
    using mset_ranked_scores[OF assms(1), of vocab] by (metis mset_eq_setD)
  then show ?thesis
    using assms by (simp add: snd_token_scores rank_order_def length_ranked_scores)
qed

lemma ranked_image:
  assumes "std_sort_spec srt"
  shows "(\<lambda>r. fst (ranked_scores srt vocab ! r)) `
           {r. r < n_tokens vocab \<and> P (fst (ranked_scores srt vocab ! r))}
         = {t. t < n_tokens vocab \<and> P t}"
proof -
  have "(\<lambda>r. rank_order srt vocab ! r) ` {r. r < n_tokens vocab \<and> P (rank_order srt vocab ! r)}
      = {t. t < n_tokens vocab \<and> P t}"
    using set_rank_order[OF assms, of vocab] length_rank_order[OF assms, of vocab]
    by (auto simp: set_conv_nth)
  then show ?thesis
    by (simp add: rank_order_nth[OF assms] cong: image_cong_simp conj_cong)
qed

lemma token_scores_descending_vocab:
  "token_scores (descending_vocab n txt) = map (\<lambda>i. (i, real n - real i)) [0..<n]"
  by (simp add: token_scores_def descending_vocab_def n_tokens_def token_get_score_def)

lemma n_tokens_descending_vocab [simp]: "n_tokens (descending_vocab n txt) = n"
  by (simp add: n_tokens_def descending_vocab_def)

lemma ranked_descending_vocab:
  assumes "std_sort_spec srt"
  shows "ranked_scores srt (descending_vocab n txt) = token_scores (descending_vocab n txt)"
proof -
  let ?ts = "token_scores (descending_vocab n txt)"
  have d: "distinct (map snd ?ts)"
    by (simp add: token_scores_descending_vocab comp_def distinct_map inj_on_def)
  have s: "sorted_wrt (\<lambda>a b. \<not> score_gt b a) ?ts"
    by (simp add: token_scores_descending_vocab sorted_wrt_map score_gt_def
        sorted_wrt_iff_nth_less)
  show ?thesis
    by (rule sorted_by_score_unique[symmetric, OF _ d s sorted_ranked_scores[OF assms]])
       (simp add: mset_ranked_scores[OF assms])
qed

lemma image_fst_token_scores_descending:
  "S \<subseteq> {0..<n} \<Longrightarrow> (\<lambda>r. fst (token_scores (descending_vocab n txt) ! r)) ` S = S"
  by (force simp: token_scores_descending_vocab)

lemma token_scores_depend_on_scores:
  assumes "map tok_score vocab' = map tok_score vocab"
  shows "token_scores vocab' = token_scores vocab"
proof -
  have n: "n_tokens vocab' = n_tokens vocab"
    using assms[THEN arg_cong, of length] by (simp add: n_tokens_def)
  have "token_get_score vocab' i = token_get_score vocab i" if "i < n_tokens vocab" for i
    using that assms[THEN arg_cong, of "\<lambda>xs. xs ! i"] n
    by (simp add: token_get_score_def n_tokens_def)
  then show ?thesis
    by (simp add: token_scores_def n)
qed

text \<open>
  Claim C4, as amended. The rank order is a function of the scores: with the same
  sorting routine, two vocabularies of the same scores get the same rank order, whatever
  their texts. It is a rearrangement of all token ids in which the scores never
  increase. Where the scores are pairwise different it is the same for every sorting
  routine that meets the contract of \<^verbatim>\<open>std::sort\<close>. The comparator looks at the score
  only; among tokens of equal score the order is the routine's choice.
\<close>

theorem rank_order_by_descending_score:
  assumes "std_sort_spec srt"
  shows "(\<forall>vocab'. map tok_score vocab' = map tok_score vocab \<longrightarrow>
             rank_order srt vocab' = rank_order srt vocab)
       \<and> mset (rank_order srt vocab) = mset [0..<n_tokens vocab]
       \<and> (\<forall>i j. i < j \<and> j < n_tokens vocab \<longrightarrow>
             token_get_score vocab (rank_order srt vocab ! j)
               \<le> token_get_score vocab (rank_order srt vocab ! i))
       \<and> (\<forall>srt'. std_sort_spec srt' \<and> distinct (map tok_score vocab) \<longrightarrow>
             rank_order srt' vocab = rank_order srt vocab)"
proof (intro conjI allI impI)
  fix vocab' :: llama_vocab
  assume "map tok_score vocab' = map tok_score vocab"
  then have "token_scores vocab' = token_scores vocab"
    by (rule token_scores_depend_on_scores)
  then show "rank_order srt vocab' = rank_order srt vocab"
    by (simp only: rank_order_def ranked_scores_def)
next
  show "mset (rank_order srt vocab) = mset [0..<n_tokens vocab]"
    by (rule mset_rank_order[OF assms])
next
  fix i j
  assume ij: "i < j \<and> j < n_tokens vocab"
  then have "\<not> score_gt (ranked_scores srt vocab ! j) (ranked_scores srt vocab ! i)"
    using sorted_ranked_scores[OF assms, of vocab] length_ranked_scores[OF assms, of vocab]
    by (simp add: sorted_wrt_iff_nth_less)
  then show "token_get_score vocab (rank_order srt vocab ! j)
      \<le> token_get_score vocab (rank_order srt vocab ! i)"
    using ij by (simp add: score_gt_def snd_ranked_scores[OF assms] not_less)
next
  fix srt'
  assume a: "std_sort_spec srt' \<and> distinct (map tok_score vocab)"
  have "map snd (token_scores vocab) = map tok_score vocab"
    by (intro nth_equalityI) (simp_all add: token_scores_def token_get_score_def n_tokens_def)
  then have "distinct (map snd (token_scores vocab))"
    using a by simp
  moreover have "mset (map snd (ranked_scores srt' vocab)) = mset (map snd (token_scores vocab))"
    using a mset_ranked_scores[of srt' vocab] by (metis mset_map)
  ultimately have d: "distinct (map snd (ranked_scores srt' vocab))"
    by (metis mset_eq_imp_distinct_iff)
  have s': "std_sort_spec srt'"
    using a by simp
  have "ranked_scores srt' vocab = ranked_scores srt vocab"
    by (rule sorted_by_score_unique[OF _ d sorted_ranked_scores[OF s'] sorted_ranked_scores[OF assms]])
       (simp add: mset_ranked_scores[OF s'] mset_ranked_scores[OF assms])
  then show "rank_order srt' vocab = rank_order srt vocab"
    by (simp add: rank_order_def)
qed

lemma token_scores_seventeen_ties: "token_scores seventeen_ties = map (\<lambda>i. (i, 1)) [0..<17]"
  by (simp add: token_scores_def seventeen_ties_def n_tokens_def token_get_score_def)

lemma token_scores_tied_pair: "token_scores tied_pair = [(0, 1), (1, 1)]"
  by (simp add: token_scores_def tied_pair_def n_tokens_def token_get_score_def upt_rec)

text \<open>
  Claim C4 as stated has ties broken by ascending token id. \<^verbatim>\<open>std::sort\<close> of the GNU
  library leaves two tokens of equal score in that order, but not seventeen: the first
  quicksort step swaps the first token with the middle one and then the others in
  pairs from both ends, so that token 8 comes first and token 0 tenth.
\<close>

lemma rank_order_tied_pair: "rank_order libstdcxx_sort tied_pair = [0, 1]"
  unfolding rank_order_def ranked_scores_def token_scores_tied_pair by code_simp

theorem seventeen_ties_not_by_ascending_id:
  "token_get_score seventeen_ties 8 = token_get_score seventeen_ties 0
   \<and> rank_order libstdcxx_sort seventeen_ties
       = [8, 16, 15, 14, 13, 12, 11, 10, 9, 0, 7, 6, 5, 4, 3, 2, 1]"
proof -
  have "rank_order libstdcxx_sort seventeen_ties
      = [8, 16, 15, 14, 13, 12, 11, 10, 9, 0, 7, 6, 5, 4, 3, 2, 1]"
    unfolding rank_order_def ranked_scores_def token_scores_seventeen_ties by code_simp
  then show ?thesis
    by (simp add: token_get_score_def seventeen_ties_def)
qed

lemma token_scores_distinct_triple: "token_scores distinct_triple = [(0, 2), (1, 5), (2, 3)]"
  by (simp add: token_scores_def distinct_triple_def n_tokens_def token_get_score_def upt_rec)

lemma rank_order_distinct_triple: "rank_order sort_keeping_ties distinct_triple = [1, 2, 0]"
  by (simp add: rank_order_def ranked_scores_def token_scores_distinct_triple
      sort_keeping_ties_def score_gt_def)

text \<open>
  Three tokens with the scores 2, 5 and 3 are ranked 1, 2, 0, and so are three tokens of
  other texts with these scores.
\<close>

theorem rank_order_by_descending_score_witness:
  "std_sort_spec sort_keeping_ties
   \<and> map tok_score (map (\<lambda>d. d\<lparr>tok_text := ''z''\<rparr>) distinct_triple) = map tok_score distinct_triple
   \<and> rank_order sort_keeping_ties (map (\<lambda>d. d\<lparr>tok_text := ''z''\<rparr>) distinct_triple)
       = rank_order sort_keeping_ties distinct_triple
   \<and> mset (rank_order sort_keeping_ties distinct_triple) = mset [0..<n_tokens distinct_triple]
   \<and> (0::nat) < 1 \<and> 1 < n_tokens distinct_triple
   \<and> token_get_score distinct_triple (rank_order sort_keeping_ties distinct_triple ! 1)
       \<le> token_get_score distinct_triple (rank_order sort_keeping_ties distinct_triple ! 0)
   \<and> distinct (map tok_score distinct_triple)
   \<and> rank_order sort_keeping_ties distinct_triple = [1, 2, 0]"
proof -
  note t = rank_order_by_descending_score[OF sort_keeping_ties_meets_spec, of distinct_triple]
  have s: "map tok_score (map (\<lambda>d. d\<lparr>tok_text := ''z''\<rparr>) distinct_triple) = map tok_score distinct_triple"
    by (simp add: distinct_triple_def)
  have n: "(0::nat) < 1 \<and> 1 < n_tokens distinct_triple"
    by (simp add: n_tokens_def distinct_triple_def)
  have d: "distinct (map tok_score distinct_triple)"
    by (simp add: distinct_triple_def)
  from t s n d sort_keeping_ties_meets_spec rank_order_distinct_triple show ?thesis
    by blast
qed

subsection \<open>The tables that initialize builds\<close>

lemma categorize_common:
  "common_tokens (categorize vocab ranked cc rc r z) =
     (if r < cc then insert (fst (ranked ! r)) (common_tokens z) else common_tokens z)"
  by (simp add: categorize_def Let_def)

lemma categorize_rare:
  "rare_tokens (categorize vocab ranked cc rc r z) =
     (if r > rc then insert (fst (ranked ! r)) (rare_tokens z) else rare_tokens z)"
  by (simp add: categorize_def Let_def)

lemma categorize_punctuation:
  "punctuation (categorize vocab ranked cc rc r z) =
     (if find_first_of (token_get_text vocab (fst (ranked ! r))) punct_chars \<noteq> None
      then insert (fst (ranked ! r)) (punctuation z) else punctuation z)"
  by (simp add: categorize_def Let_def)

lemma categorize_dialogue:
  "dialogue_tokens (categorize vocab ranked cc rc r z) =
     (if find_first_of (token_get_text vocab (fst (ranked ! r))) punct_chars \<noteq> None
         \<and> find_char (token_get_text vocab (fst (ranked ! r))) quote_char \<noteq> None
      then insert (fst (ranked ! r)) (dialogue_tokens z) else dialogue_tokens z)"
  by (simp add: categorize_def Let_def)

lemma categorize_other [simp]:
  "vocab_size (categorize vocab ranked cc rc r z) = vocab_size z"
  "initialized (categorize vocab ranked cc rc r z) = initialized z"
  "conv_state (categorize vocab ranked cc rc r z) = conv_state z"
  "params (categorize vocab ranked cc rc r z) = params z"
  "current_role_tokens (categorize vocab ranked cc rc r z) = current_role_tokens z"
  "current_mood_tokens (categorize vocab ranked cc rc r z) = current_mood_tokens z"
  "token_flags (categorize vocab ranked cc rc r z) = token_flags z"
  "length (base_logit_bias (categorize vocab ranked cc rc r z)) = length (base_logit_bias z)"
  by (simp_all add: categorize_def Let_def)

lemma categorize_loop_other:
  "vocab_size (fold (categorize vocab ranked cc rc) rs z) = vocab_size z"
  "initialized (fold (categorize vocab ranked cc rc) rs z) = initialized z"
  "conv_state (fold (categorize vocab ranked cc rc) rs z) = conv_state z"
  "params (fold (categorize vocab ranked cc rc) rs z) = params z"
  "current_role_tokens (fold (categorize vocab ranked cc rc) rs z) = current_role_tokens z"
  "current_mood_tokens (fold (categorize vocab ranked cc rc) rs z) = current_mood_tokens z"
  "token_flags (fold (categorize vocab ranked cc rc) rs z) = token_flags z"
  "length (base_logit_bias (fold (categorize vocab ranked cc rc) rs z)) = length (base_logit_bias z)"
  by (rule fold_field_preserved, simp)+

lemma length_resize [simp]: "length (resize n v xs) = n"
  by (simp add: resize_def)

lemma length_or_flag [simp]: "length (or_flag S b fl) = length fl"
  by (simp add: or_flag_def)

lemma categorize_loop_common:
  "common_tokens (fold (categorize vocab ranked cc rc) rs z) =
     common_tokens z \<union> (\<lambda>r. fst (ranked ! r)) ` {r \<in> set rs. r < cc}"
  by (rule fold_insert_field[where P = "\<lambda>r. r < cc"]) (rule categorize_common)

lemma categorize_loop_rare:
  "rare_tokens (fold (categorize vocab ranked cc rc) rs z) =
     rare_tokens z \<union> (\<lambda>r. fst (ranked ! r)) ` {r \<in> set rs. r > rc}"
  by (rule fold_insert_field[where P = "\<lambda>r. r > rc"]) (rule categorize_rare)

lemma categorize_loop_punctuation:
  "punctuation (fold (categorize vocab ranked cc rc) rs z) =
     punctuation z \<union> (\<lambda>r. fst (ranked ! r)) `
       {r \<in> set rs. find_first_of (token_get_text vocab (fst (ranked ! r))) punct_chars \<noteq> None}"
  by (rule fold_insert_field
        [where P = "\<lambda>r. find_first_of (token_get_text vocab (fst (ranked ! r))) punct_chars \<noteq> None"])
     (rule categorize_punctuation)

lemma categorize_loop_dialogue:
  "dialogue_tokens (fold (categorize vocab ranked cc rc) rs z) =
     dialogue_tokens z \<union> (\<lambda>r. fst (ranked ! r)) `
       {r \<in> set rs. find_first_of (token_get_text vocab (fst (ranked ! r))) punct_chars \<noteq> None
          \<and> find_char (token_get_text vocab (fst (ranked ! r))) quote_char \<noteq> None}"
  by (rule fold_insert_field
        [where P = "\<lambda>r. find_first_of (token_get_text vocab (fst (ranked ! r))) punct_chars \<noteq> None
          \<and> find_char (token_get_text vocab (fst (ranked ! r))) quote_char \<noteq> None"])
     (rule categorize_dialogue)

lemma initialize_common:
  "common_tokens (initialize srt vocab z) =
     (\<lambda>r. fst (ranked_scores srt vocab ! r)) `
       {r. r < n_tokens vocab \<and> r < common_cutoff_of (n_tokens vocab)}"
  by (simp add: initialize_def Let_def categorize_loop_common)

lemma initialize_rare:
  "rare_tokens (initialize srt vocab z) =
     (\<lambda>r. fst (ranked_scores srt vocab ! r)) `
       {r. r < n_tokens vocab \<and> r > rare_cutoff_of (n_tokens vocab)}"
  by (simp add: initialize_def Let_def categorize_loop_rare)

lemma initialize_punctuation:
  "punctuation (initialize srt vocab z) =
     (\<lambda>r. fst (ranked_scores srt vocab ! r)) `
       {r. r < n_tokens vocab \<and>
           find_first_of (token_get_text vocab (fst (ranked_scores srt vocab ! r))) punct_chars \<noteq> None}"
  by (simp add: initialize_def Let_def categorize_loop_punctuation)

lemma initialize_dialogue:
  "dialogue_tokens (initialize srt vocab z) =
     (\<lambda>r. fst (ranked_scores srt vocab ! r)) `
       {r. r < n_tokens vocab \<and>
           find_first_of (token_get_text vocab (fst (ranked_scores srt vocab ! r))) punct_chars \<noteq> None
           \<and> find_char (token_get_text vocab (fst (ranked_scores srt vocab ! r))) quote_char \<noteq> None}"
  by (simp add: initialize_def Let_def categorize_loop_dialogue)

lemma initialize_other:
  "vocab_size (initialize srt vocab z) = n_tokens vocab"
  "initialized (initialize srt vocab z)"
  "conv_state (initialize srt vocab z) = conv_state z"
  "params (initialize srt vocab z) = params z"
  "current_role_tokens (initialize srt vocab z) = current_role_tokens z"
  "current_mood_tokens (initialize srt vocab z) = current_mood_tokens z"
  "length (token_flags (initialize srt vocab z)) = n_tokens vocab"
  "length (base_logit_bias (initialize srt vocab z)) = n_tokens vocab"
  by (simp_all add: initialize_def Let_def categorize_loop_other)

lemma initialize_punctuation_set:
  assumes "std_sort_spec srt"
  shows "punctuation (initialize srt vocab z) =
     {t. t < n_tokens vocab \<and> (\<exists>c \<in> set (token_get_text vocab t). c \<in> set punct_chars)}"
  unfolding initialize_punctuation find_first_of_iff
  by (rule ranked_image[OF assms,
        of _ "\<lambda>t. \<exists>c \<in> set (token_get_text vocab t). c \<in> set punct_chars"])

lemma initialize_dialogue_set:
  assumes "std_sort_spec srt"
  shows "dialogue_tokens (initialize srt vocab z) =
     {t. t < n_tokens vocab \<and> quote_char \<in> set (token_get_text vocab t)}"
proof -
  have "dialogue_tokens (initialize srt vocab z) =
     {t. t < n_tokens vocab \<and> ((\<exists>c \<in> set (token_get_text vocab t). c \<in> set punct_chars)
        \<and> quote_char \<in> set (token_get_text vocab t))}"
    unfolding initialize_dialogue find_first_of_iff find_char_iff
    by (rule ranked_image[OF assms,
          of _ "\<lambda>t. (\<exists>c \<in> set (token_get_text vocab t). c \<in> set punct_chars)
            \<and> quote_char \<in> set (token_get_text vocab t)"])
  then show ?thesis
    using quote_is_punct by auto
qed

lemma descending_vocab_common:
  assumes "std_sort_spec srt"
  shows "common_tokens (initialize srt (descending_vocab n txt) z) = {0..<common_cutoff_of n}"
  unfolding initialize_common ranked_descending_vocab[OF assms]
  by (subst image_fst_token_scores_descending) (auto simp: common_cutoff_of_def)

lemma descending_vocab_rare:
  assumes "std_sort_spec srt"
  shows "rare_tokens (initialize srt (descending_vocab n txt) z) = {Suc (rare_cutoff_of n)..<n}"
  unfolding initialize_rare ranked_descending_vocab[OF assms]
  by (subst image_fst_token_scores_descending) auto

lemma cutoffs_ordered: "common_cutoff_of n \<le> rare_cutoff_of n"
  by (simp add: common_cutoff_of_def rare_cutoff_of_def)

lemma categorize_bias:
  "base_logit_bias (categorize vocab ranked cc rc r z) =
     (base_logit_bias z)[fst (ranked ! r) := ln (1 / (real r + 1) powr 0.3)]"
  by (simp add: categorize_def Let_def)

lemma categorize_loop_bias:
  "base_logit_bias (fold (categorize vocab ranked cc rc) rs z) =
     fold (\<lambda>r b. b[fst (ranked ! r) := ln (1 / (real r + 1) powr 0.3)]) rs (base_logit_bias z)"
  by (induction rs arbitrary: z) (simp_all add: categorize_bias)

lemma length_fold_assign: "length (fold (\<lambda>r b. b[tok r := v r]) rs b) = length b"
  by (induction rs arbitrary: b) simp_all

lemma nth_fold_assign:
  assumes "distinct (map tok rs)" "r \<in> set rs" "tok r < length b"
  shows "fold (\<lambda>r b. b[tok r := v r]) rs b ! tok r = v r"
  using assms
proof (induction rs arbitrary: b rule: rev_induct)
  case Nil
  then show ?case by simp
next
  case (snoc x xs)
  show ?case
  proof (cases "x = r")
    case True
    with snoc.prems show ?thesis
      by (simp add: length_fold_assign)
  next
    case False
    with snoc.prems have "r \<in> set xs" "tok x \<noteq> tok r"
      by auto
    with snoc show ?thesis
      by simp
  qed
qed

lemma initialize_bias:
  assumes "std_sort_spec srt" "r < n_tokens vocab"
  shows "base_logit_bias (initialize srt vocab z) ! (rank_order srt vocab ! r)
           = ln (1 / (real r + 1) powr 0.3)"
proof -
  let ?tok = "\<lambda>r. fst (ranked_scores srt vocab ! r)"
  have "map ?tok [0..<n_tokens vocab] = rank_order srt vocab"
    using assms(1) by (intro nth_equalityI) (simp_all add: length_rank_order rank_order_nth)
  then have d: "distinct (map ?tok [0..<n_tokens vocab])"
    using distinct_rank_order[OF assms(1), of vocab] by simp
  have "rank_order srt vocab ! r \<in> set (rank_order srt vocab)"
    using assms by (simp add: length_rank_order)
  then have "rank_order srt vocab ! r < n_tokens vocab"
    using set_rank_order[OF assms(1), of vocab] by simp
  then have l: "?tok r < length (resize (n_tokens vocab) 0 (base_logit_bias z))"
    using assms by (simp add: rank_order_nth)
  have "base_logit_bias (initialize srt vocab z) ! ?tok r = ln (1 / (real r + 1) powr 0.3)"
    unfolding initialize_def Let_def
    using nth_fold_assign[of ?tok "[0..<n_tokens vocab]" r _ "\<lambda>r. ln (1 / (real r + 1) powr 0.3)", OF d _ l]
      assms(2)
    by (simp add: categorize_loop_bias)
  then show ?thesis
    using assms by (simp add: rank_order_nth)
qed

lemma nth_or_flag:
  "t < length fl \<Longrightarrow> or_flag S b fl ! t = (if t \<in> S then fl ! t OR b else fl ! t)"
  by (simp add: or_flag_def)

lemma initialize_token_flags:
  assumes "token_flags z = []" "t < n_tokens vocab"
  shows "token_flags (initialize srt vocab z) ! t =
     (if t \<in> common_tokens (initialize srt vocab z) then IS_COMMON else 0)
     OR (if t \<in> rare_tokens (initialize srt vocab z) then IS_RARE else 0)
     OR (if t \<in> punctuation (initialize srt vocab z) then IS_PUNCT else 0)
     OR (if t \<in> dialogue_tokens (initialize srt vocab z) then IS_DIALOGUE else 0)"
  using assms
  by (simp add: initialize_def Let_def nth_or_flag categorize_loop_other resize_def
      or.assoc or.commute or.left_commute)

lemma flag_bits:
  fixes c r p d :: bool
  defines "w \<equiv> (if c then IS_COMMON else 0) OR (if r then IS_RARE else 0)
     OR (if p then IS_PUNCT else 0) OR (if d then IS_DIALOGUE else 0)"
  shows "(w AND IS_COMMON \<noteq> 0) = c" "(w AND IS_RARE \<noteq> 0) = r"
    "(w AND IS_PUNCT \<noteq> 0) = p" "(w AND IS_DIALOGUE \<noteq> 0) = d"
  unfolding w_def IS_COMMON_def IS_RARE_def IS_PUNCT_def IS_DIALOGUE_def
  by (cases c; cases r; cases p; cases d; simp)+

lemma initialize_flag_bits:
  assumes "token_flags z = []" "t < n_tokens vocab"
  shows "(token_flags (initialize srt vocab z) ! t AND IS_COMMON \<noteq> 0)
           = (t \<in> common_tokens (initialize srt vocab z))"
    "(token_flags (initialize srt vocab z) ! t AND IS_RARE \<noteq> 0)
           = (t \<in> rare_tokens (initialize srt vocab z))"
    "(token_flags (initialize srt vocab z) ! t AND IS_PUNCT \<noteq> 0)
           = (t \<in> punctuation (initialize srt vocab z))"
    "(token_flags (initialize srt vocab z) ! t AND IS_DIALOGUE \<noteq> 0)
           = (t \<in> dialogue_tokens (initialize srt vocab z))"
  unfolding initialize_token_flags[OF assms] by (rule flag_bits)+

lemma initialize_empty:
  "initialize srt [] z = z\<lparr>vocab_size := 0, base_logit_bias := [], common_tokens := {},
     rare_tokens := {}, punctuation := {}, dialogue_tokens := {}, token_flags := [],
     initialized := True\<rparr>"
  by (simp add: initialize_def Let_def n_tokens_def resize_def or_flag_def)

lemma initialize_common_ranks:
  assumes "std_sort_spec srt"
  shows "common_tokens (initialize srt vocab z) =
     {rank_order srt vocab ! r |r. r < n_tokens vocab \<and> r < common_cutoff_of (n_tokens vocab)}"
  unfolding initialize_common by (auto simp: rank_order_nth[OF assms])

lemma initialize_rare_ranks:
  assumes "std_sort_spec srt"
  shows "rare_tokens (initialize srt vocab z) =
     {rank_order srt vocab ! r |r. r < n_tokens vocab \<and> rare_cutoff_of (n_tokens vocab) < r}"
  unfolding initialize_rare by (auto simp: rank_order_nth[OF assms])

text \<open>
  Claim C3, as amended. \<^verbatim>\<open>initialize\<close> has no failure path: for every vocabulary, the
  empty one too, it returns with \<^verbatim>\<open>initialized\<close> set. It builds the profile anew, whatever
  the object held before: \<^verbatim>\<open>vocab_size\<close>, the common tokens (those of the first
  \<open>min 500 (n div 10)\<close> ranks), the rare tokens (those of rank above \<open>4 * n div 5\<close>), the
  punctuation and the dialogue tokens, the bias \<open>ln (1 / (r + 1) powr 0.3)\<close> of the token
  of rank \<open>r\<close>, and a flag table of the size of the vocabulary. The context sets, the
  conversation state and the dynamic parameters stay as they were. For the empty
  vocabulary all four sets and both tables come out empty.
\<close>

theorem initialize_builds_every_vocabulary:
  assumes "std_sort_spec srt"
  shows "initialized (initialize srt vocab z)
       \<and> vocab_size (initialize srt vocab z) = n_tokens vocab
       \<and> common_tokens (initialize srt vocab z) =
           {rank_order srt vocab ! r |r. r < n_tokens vocab \<and> r < common_cutoff_of (n_tokens vocab)}
       \<and> rare_tokens (initialize srt vocab z) =
           {rank_order srt vocab ! r |r. r < n_tokens vocab \<and> rare_cutoff_of (n_tokens vocab) < r}
       \<and> punctuation (initialize srt vocab z) =
           {t. t < n_tokens vocab \<and> (\<exists>c \<in> set (token_get_text vocab t). c \<in> set punct_chars)}
       \<and> dialogue_tokens (initialize srt vocab z) =
           {t. t < n_tokens vocab \<and> quote_char \<in> set (token_get_text vocab t)}
       \<and> length (base_logit_bias (initialize srt vocab z)) = n_tokens vocab
       \<and> (\<forall>r < n_tokens vocab.
             base_logit_bias (initialize srt vocab z) ! (rank_order srt vocab ! r)
               = ln (1 / (real r + 1) powr 0.3))
       \<and> length (token_flags (initialize srt vocab z)) = n_tokens vocab
       \<and> current_role_tokens (initialize srt vocab z) = current_role_tokens z
       \<and> current_mood_tokens (initialize srt vocab z) = current_mood_tokens z
       \<and> conv_state (initialize srt vocab z) = conv_state z
       \<and> params (initialize srt vocab z) = params z
       \<and> (vocab = [] \<longrightarrow>
            initialize srt vocab z =
              z\<lparr>vocab_size := 0, base_logit_bias := [], common_tokens := {}, rare_tokens := {},
                punctuation := {}, dialogue_tokens := {}, token_flags := [],
                initialized := True\<rparr>)"
proof -
  note sets = initialize_common_ranks[OF assms, of vocab z] initialize_rare_ranks[OF assms, of vocab z]
    initialize_punctuation_set[OF assms, of vocab z] initialize_dialogue_set[OF assms, of vocab z]
  note other = initialize_other[of srt vocab z]
  have bias: "\<forall>r < n_tokens vocab.
      base_logit_bias (initialize srt vocab z) ! (rank_order srt vocab ! r)
        = ln (1 / (real r + 1) powr 0.3)"
    using initialize_bias[OF assms] by blast
  have empty: "vocab = [] \<longrightarrow>
      initialize srt vocab z =
        z\<lparr>vocab_size := 0, base_logit_bias := [], common_tokens := {}, rare_tokens := {},
          punctuation := {}, dialogue_tokens := {}, token_flags := [],
          initialized := True\<rparr>"
    using initialize_empty[of srt z] by blast
  show ?thesis
    by (intro conjI) (fact sets other bias empty)+
qed

lemma quoted_texts:
  "token_get_text quoted_vocab 0 = ''hi''"
  "token_get_text quoted_vocab (Suc 0) = [CHR 0x22]"
  "token_get_text quoted_vocab 2 = ''.''"
  by (simp_all add: token_get_text_def quoted_vocab_def)

lemma quoted_punct_0: "\<not> (\<exists>c\<in>set (token_get_text quoted_vocab 0). c \<in> set punct_chars)"
  by (simp add: quoted_texts punct_chars_def)

lemma quoted_punct_1: "(\<exists>c\<in>set (token_get_text quoted_vocab (Suc 0)). c \<in> set punct_chars)"
  by (simp add: quoted_texts punct_chars_def)

lemma quoted_punct_2: "(\<exists>c\<in>set (token_get_text quoted_vocab 2). c \<in> set punct_chars)"
  by (simp add: quoted_texts punct_chars_def)

lemma quoted_quote_0: "quote_char \<notin> set (token_get_text quoted_vocab 0)"
  and quoted_quote_1: "quote_char \<in> set (token_get_text quoted_vocab (Suc 0))"
  and quoted_quote_2: "quote_char \<notin> set (token_get_text quoted_vocab 2)"
  by (simp_all add: quoted_texts quote_char_def)

lemma n_tokens_quoted_vocab: "n_tokens quoted_vocab = 3"
  by (simp add: n_tokens_def quoted_vocab_def)

lemma quoted_state_sets:
  "punctuation quoted_state = {1, 2}" "dialogue_tokens quoted_state = {1}"
  unfolding quoted_state_def initialize_punctuation_set[OF sort_keeping_ties_meets_spec]
    initialize_dialogue_set[OF sort_keeping_ties_meets_spec] n_tokens_quoted_vocab
  by (simp_all add: set_below_three quoted_punct_0 quoted_punct_1 quoted_punct_2
      quoted_quote_0 quoted_quote_1 quoted_quote_2 insert_commute)

text \<open>
  Claim C3 as stated has the build of an empty vocabulary fail. It completes. On a new
  object it sets \<^verbatim>\<open>initialized\<close>; on the object built from three tokens, two of them
  punctuation, it leaves the four sets and the two tables empty and \<^verbatim>\<open>initialized\<close> set.
\<close>

theorem initialize_empty_vocabulary:
  "\<not> initialized fresh_accelerator
   \<and> initialized (initialize libstdcxx_sort [] fresh_accelerator)
   \<and> punctuation quoted_state = {1, 2} \<and> dialogue_tokens quoted_state = {1}
   \<and> initialize libstdcxx_sort [] quoted_state =
       quoted_state\<lparr>vocab_size := 0, base_logit_bias := [], common_tokens := {},
         rare_tokens := {}, punctuation := {}, dialogue_tokens := {}, token_flags := [],
         initialized := True\<rparr>"
  by (simp add: initialize_empty quoted_state_sets) (simp add: fresh_accelerator_def)

text \<open>
  The build of the three tokens \<open>hi\<close>, a quotation mark and a full stop; and the build
  of the empty vocabulary on the object that the first build leaves.
\<close>

theorem initialize_builds_every_vocabulary_witness:
  "std_sort_spec sort_keeping_ties
   \<and> initialized (initialize sort_keeping_ties quoted_vocab fresh_accelerator)
   \<and> punctuation (initialize sort_keeping_ties quoted_vocab fresh_accelerator) = {1, 2}
   \<and> dialogue_tokens (initialize sort_keeping_ties quoted_vocab fresh_accelerator) = {1}
   \<and> (0::nat) < n_tokens quoted_vocab
   \<and> base_logit_bias (initialize sort_keeping_ties quoted_vocab fresh_accelerator)
        ! (rank_order sort_keeping_ties quoted_vocab ! 0) = 0
   \<and> punctuation quoted_state = {1, 2}
   \<and> initialized (initialize sort_keeping_ties [] quoted_state)
   \<and> punctuation (initialize sort_keeping_ties [] quoted_state) = {}
   \<and> base_logit_bias (initialize sort_keeping_ties [] quoted_state) = []"
proof -
  note built = initialize_builds_every_vocabulary[OF sort_keeping_ties_meets_spec,
      of quoted_vocab fresh_accelerator]
  note emptied = initialize_builds_every_vocabulary[OF sort_keeping_ties_meets_spec,
      of "[]" quoted_state]
  have n: "(0::nat) < n_tokens quoted_vocab"
    by (simp add: n_tokens_quoted_vocab)
  have i: "initialized (initialize sort_keeping_ties quoted_vocab fresh_accelerator)"
    using built by blast
  have b: "base_logit_bias (initialize sort_keeping_ties quoted_vocab fresh_accelerator)
        ! (rank_order sort_keeping_ties quoted_vocab ! 0) = ln (1 / (real 0 + 1) powr 0.3)"
    using built n by blast
  have e: "initialize sort_keeping_ties [] quoted_state =
      quoted_state\<lparr>vocab_size := 0, base_logit_bias := [], common_tokens := {},
        rare_tokens := {}, punctuation := {}, dialogue_tokens := {}, token_flags := [],
        initialized := True\<rparr>"
    using emptied by blast
  show ?thesis
    using sort_keeping_ties_meets_spec i n b quoted_state_sets
    by (simp add: e flip: quoted_state_def)
qed

text \<open>
  Claim C2. On the vocabulary of 1000 tokens where token \<open>i\<close> has score \<open>1000 - i\<close>,
  token 0 gets rank 0 (and so the bias \<open>ln 1 = 0\<close>) and 100 tokens are common, as the
  claim says. The rare tokens are those of rank above 800, the ranks 801 to 999: there
  are 199 of them, not 200.
\<close>

theorem thousand_token_ranks:
  assumes "std_sort_spec srt"
  shows "rank_order srt (descending_vocab 1000 txt) ! 0 = 0
       \<and> base_logit_bias (initialize srt (descending_vocab 1000 txt) z) ! 0 = 0
       \<and> card (common_tokens (initialize srt (descending_vocab 1000 txt) z)) = 100
       \<and> card (rare_tokens (initialize srt (descending_vocab 1000 txt) z)) = 199"
proof -
  let ?v = "descending_vocab 1000 txt"
  have r: "ranked_scores srt ?v = token_scores ?v"
    by (rule ranked_descending_vocab[OF assms])
  have first: "rank_order srt ?v ! 0 = 0"
    by (simp add: rank_order_def r map_fst_token_scores)
  have "base_logit_bias (initialize srt ?v z) ! (rank_order srt ?v ! 0) = 0"
    by (subst initialize_bias[OF assms]) simp_all
  then have "base_logit_bias (initialize srt ?v z) ! 0 = 0"
    by (simp only: first)
  moreover note first
  moreover have "common_tokens (initialize srt ?v z) = {0..<100}"
    unfolding initialize_common r
    by (subst image_fst_token_scores_descending) (auto simp: common_cutoff_of_def)
  moreover have "rare_tokens (initialize srt ?v z) = {801..<1000}"
    unfolding initialize_rare r
    by (subst image_fst_token_scores_descending) (auto simp: rare_cutoff_of_def)
  ultimately show ?thesis
    by simp
qed

text \<open>The same with a sorting routine that meets the contract.\<close>

theorem thousand_token_ranks_witness:
  "std_sort_spec sort_keeping_ties
   \<and> rank_order sort_keeping_ties (descending_vocab 1000 (\<lambda>i. ''x'')) ! 0 = 0
   \<and> base_logit_bias (initialize sort_keeping_ties (descending_vocab 1000 (\<lambda>i. ''x''))
        fresh_accelerator) ! 0 = 0
   \<and> card (common_tokens (initialize sort_keeping_ties (descending_vocab 1000 (\<lambda>i. ''x''))
        fresh_accelerator)) = 100
   \<and> card (rare_tokens (initialize sort_keeping_ties (descending_vocab 1000 (\<lambda>i. ''x''))
        fresh_accelerator)) = 199"
  using thousand_token_ranks[OF sort_keeping_ties_meets_spec, of "\<lambda>i. ''x''" fresh_accelerator]
    sort_keeping_ties_meets_spec by simp

text \<open>
  Claim C9. No token is in both \<^verbatim>\<open>common_tokens\<close> and \<^verbatim>\<open>rare_tokens\<close> after
  \<^verbatim>\<open>initialize\<close>, for every vocabulary whose size keeps \<^verbatim>\<open>vocab_size * 4\<close> inside a
  32-bit \<^verbatim>\<open>int\<close>: the common ranks lie below \<open>min 500 (n div 10)\<close>, the rare ranks
  above \<open>4 * n div 5\<close>, and every token has one rank. On an object whose flag table
  was empty before, no entry of \<^verbatim>\<open>token_flags\<close> has both the bit \<^verbatim>\<open>IS_COMMON\<close> and the
  bit \<^verbatim>\<open>IS_RARE\<close>.
\<close>

theorem common_rare_disjoint:
  assumes "std_sort_spec srt" and "n_tokens vocab * 4 \<le> 2147483647"
  shows "common_tokens (initialize srt vocab z) \<inter> rare_tokens (initialize srt vocab z) = {}
       \<and> (token_flags z = [] \<longrightarrow>
            (\<forall>t < n_tokens vocab.
               \<not> (token_flags (initialize srt vocab z) ! t AND IS_COMMON \<noteq> 0
                  \<and> token_flags (initialize srt vocab z) ! t AND IS_RARE \<noteq> 0)))"
proof -
  let ?n = "n_tokens vocab"
  let ?ord = "rank_order srt vocab"
  have False if a: "a < ?n" "a < common_cutoff_of ?n" and b: "b < ?n" "rare_cutoff_of ?n < b"
    and eq: "fst (ranked_scores srt vocab ! a) = fst (ranked_scores srt vocab ! b)" for a b
  proof -
    have "?ord ! a = ?ord ! b"
      using eq a(1) b(1) assms(1) by (simp add: rank_order_nth)
    then have "a = b"
      using distinct_rank_order[OF assms(1), of vocab] length_rank_order[OF assms(1), of vocab]
        a(1) b(1) by (simp add: nth_eq_iff_index_eq)
    then show False
      using a(2) b(2) cutoffs_ordered[of ?n] by simp
  qed
  then have sets: "common_tokens (initialize srt vocab z) \<inter> rare_tokens (initialize srt vocab z) = {}"
    unfolding initialize_common initialize_rare by blast
  then have "\<not> (token_flags (initialize srt vocab z) ! t AND IS_COMMON \<noteq> 0
      \<and> token_flags (initialize srt vocab z) ! t AND IS_RARE \<noteq> 0)"
    if "token_flags z = []" "t < n_tokens vocab" for t
    unfolding initialize_flag_bits[OF that] by blast
  with sets show ?thesis
    by blast
qed

text \<open>
  Ten tokens of descending score: token 0 is the one common token, token 9 the one rare
  token.
\<close>

theorem common_rare_disjoint_witness:
  "std_sort_spec sort_keeping_ties
   \<and> n_tokens (descending_vocab 10 (\<lambda>i. ''x'')) * 4 \<le> 2147483647
   \<and> token_flags fresh_accelerator = [] \<and> 9 < n_tokens (descending_vocab 10 (\<lambda>i. ''x''))
   \<and> \<not> (token_flags (initialize sort_keeping_ties (descending_vocab 10 (\<lambda>i. ''x''))
             fresh_accelerator) ! 9 AND IS_COMMON \<noteq> 0
         \<and> token_flags (initialize sort_keeping_ties (descending_vocab 10 (\<lambda>i. ''x''))
             fresh_accelerator) ! 9 AND IS_RARE \<noteq> 0)
   \<and> common_tokens (initialize sort_keeping_ties (descending_vocab 10 (\<lambda>i. ''x'')) fresh_accelerator)
       \<inter> rare_tokens (initialize sort_keeping_ties (descending_vocab 10 (\<lambda>i. ''x'')) fresh_accelerator) = {}
   \<and> common_tokens (initialize sort_keeping_ties (descending_vocab 10 (\<lambda>i. ''x'')) fresh_accelerator) = {0}
   \<and> rare_tokens (initialize sort_keeping_ties (descending_vocab 10 (\<lambda>i. ''x'')) fresh_accelerator) = {9}"
proof -
  have b: "n_tokens (descending_vocab 10 (\<lambda>i. ''x'')) * 4 \<le> 2147483647"
    by simp
  have c: "common_tokens (initialize sort_keeping_ties (descending_vocab 10 (\<lambda>i. ''x'')) fresh_accelerator) = {0}"
    by (auto simp: descending_vocab_common[OF sort_keeping_ties_meets_spec] common_cutoff_of_def)
  have r: "rare_tokens (initialize sort_keeping_ties (descending_vocab 10 (\<lambda>i. ''x'')) fresh_accelerator) = {9}"
    by (auto simp: descending_vocab_rare[OF sort_keeping_ties_meets_spec] rare_cutoff_of_def)
  have f: "token_flags fresh_accelerator = [] \<and> 9 < n_tokens (descending_vocab 10 (\<lambda>i. ''x''))"
    by (simp add: fresh_accelerator_def)
  show ?thesis
    using common_rare_disjoint[OF sort_keeping_ties_meets_spec b, of fresh_accelerator]
      sort_keeping_ties_meets_spec b c r f by blast
qed

text \<open>
  Claim C10. After \<^verbatim>\<open>initialize\<close> the dialogue tokens are the tokens whose text holds a
  quotation mark, the punctuation tokens those whose text holds one of the five
  punctuation characters, and the former are among the latter. So
  \<^verbatim>\<open>suppress_dialogue_enders\<close>, and with it the dialogue-flow step at a completion ratio
  below \<open>0.6\<close>, lowers the logit of every dialogue token by 2. On an
  object whose flag table was empty before, every entry of \<^verbatim>\<open>token_flags\<close> with the bit
  \<^verbatim>\<open>IS_DIALOGUE\<close> has the bit \<^verbatim>\<open>IS_PUNCT\<close>.
\<close>

theorem dialogue_subset_punctuation:
  assumes "std_sort_spec srt"
  shows "dialogue_tokens (initialize srt vocab z) =
           {t. t < n_tokens vocab \<and> quote_char \<in> set (token_get_text vocab t)}
       \<and> punctuation (initialize srt vocab z) =
           {t. t < n_tokens vocab \<and> (\<exists>c \<in> set (token_get_text vocab t). c \<in> set punct_chars)}
       \<and> dialogue_tokens (initialize srt vocab z) \<subseteq> punctuation (initialize srt vocab z)
       \<and> (\<forall>t \<in> dialogue_tokens (initialize srt vocab z). t < length logits \<longrightarrow>
             suppress_dialogue_enders (initialize srt vocab z) logits ! t = logits ! t - 2)
       \<and> (\<forall>t \<in> dialogue_tokens (initialize srt vocab z).
             t < length logits \<and> completion_ratio m < 0.6 \<longrightarrow>
             dialogue_flow (initialize srt vocab z) m logits ! t = logits ! t - 2)
       \<and> (token_flags z = [] \<longrightarrow>
            (\<forall>t < n_tokens vocab.
               token_flags (initialize srt vocab z) ! t AND IS_DIALOGUE \<noteq> 0 \<longrightarrow>
               token_flags (initialize srt vocab z) ! t AND IS_PUNCT \<noteq> 0))"
proof -
  have sub: "dialogue_tokens (initialize srt vocab z) \<subseteq> punctuation (initialize srt vocab z)"
    unfolding initialize_dialogue_set[OF assms] initialize_punctuation_set[OF assms]
    using quote_is_punct by blast
  then have reach: "\<forall>t \<in> dialogue_tokens (initialize srt vocab z). t < length logits \<longrightarrow>
      suppress_dialogue_enders (initialize srt vocab z) logits ! t = logits ! t - 2"
    by (auto simp: suppress_dialogue_enders_def)
  then have flow: "\<forall>t \<in> dialogue_tokens (initialize srt vocab z).
      t < length logits \<and> completion_ratio m < 0.6 \<longrightarrow>
      dialogue_flow (initialize srt vocab z) m logits ! t = logits ! t - 2"
    by (simp add: dialogue_flow_def Let_def)
  have bits: "token_flags (initialize srt vocab z) ! t AND IS_PUNCT \<noteq> 0"
    if "token_flags z = []" "t < n_tokens vocab"
      "token_flags (initialize srt vocab z) ! t AND IS_DIALOGUE \<noteq> 0" for t
    using that(3) sub unfolding initialize_flag_bits[OF that(1,2)] by blast
  from sub reach flow bits show ?thesis
    by (simp add: initialize_dialogue_set[OF assms] initialize_punctuation_set[OF assms])
qed

text \<open>
  Of the tokens \<open>hi\<close>, a quotation mark and a full stop, the second is the dialogue token
  and the last two are the punctuation tokens.
\<close>

theorem dialogue_subset_punctuation_witness:
  "std_sort_spec sort_keeping_ties
   \<and> dialogue_tokens (initialize sort_keeping_ties quoted_vocab fresh_accelerator) = {1}
   \<and> punctuation (initialize sort_keeping_ties quoted_vocab fresh_accelerator) = {1, 2}
   \<and> (1::nat) < length [5, 5, 5 :: real]
   \<and> suppress_dialogue_enders (initialize sort_keeping_ties quoted_vocab fresh_accelerator)
         [5, 5, 5] ! 1 = 3
   \<and> completion_ratio 150 < 0.6
   \<and> dialogue_flow (initialize sort_keeping_ties quoted_vocab fresh_accelerator) 150
         [5, 5, 5] ! 1 = 3
   \<and> token_flags fresh_accelerator = [] \<and> 1 < n_tokens quoted_vocab
   \<and> token_flags (initialize sort_keeping_ties quoted_vocab fresh_accelerator) ! 1
         AND IS_DIALOGUE \<noteq> 0
   \<and> token_flags (initialize sort_keeping_ties quoted_vocab fresh_accelerator) ! 1
         AND IS_PUNCT \<noteq> 0"
proof -
  note t = dialogue_subset_punctuation[OF sort_keeping_ties_meets_spec,
      of quoted_vocab fresh_accelerator "[5, 5, 5]" 150]
  have n: "n_tokens quoted_vocab = 3"
    by (simp add: n_tokens_def quoted_vocab_def)
  have d: "dialogue_tokens (initialize sort_keeping_ties quoted_vocab fresh_accelerator) = {1}"
    unfolding t[THEN conjunct1] n
    by (simp add: set_below_three quoted_quote_0 quoted_quote_1 quoted_quote_2)
  have p: "punctuation (initialize sort_keeping_ties quoted_vocab fresh_accelerator) = {1, 2}"
    unfolding t[THEN conjunct2, THEN conjunct1] n
    by (simp add: set_below_three quoted_punct_0 quoted_punct_1 quoted_punct_2 insert_commute)
  have "1 \<in> dialogue_tokens (initialize sort_keeping_ties quoted_vocab fresh_accelerator)"
    unfolding d by simp
  then have s: "suppress_dialogue_enders (initialize sort_keeping_ties quoted_vocab fresh_accelerator)
         [5, 5, 5] ! 1 = 3"
    using t[THEN conjunct2, THEN conjunct2, THEN conjunct2, THEN conjunct1, rule_format, of 1]
    by simp
  have c: "completion_ratio 150 < 0.6"
    by (simp add: completion_ratio_def MAX_RESPONSE_LENGTH_def)
  have f: "dialogue_flow (initialize sort_keeping_ties quoted_vocab fresh_accelerator) 150
      [5, 5, 5] ! 1 = 3"
    using t[THEN conjunct2, THEN conjunct2, THEN conjunct2, THEN conjunct2, THEN conjunct1,
        rule_format, of 1] c
      \<open>1 \<in> dialogue_tokens (initialize sort_keeping_ties quoted_vocab fresh_accelerator)\<close>
    by simp
  have e: "token_flags fresh_accelerator = []" and l: "1 < n_tokens quoted_vocab"
    by (simp_all add: fresh_accelerator_def n)
  have bd: "token_flags (initialize sort_keeping_ties quoted_vocab fresh_accelerator) ! 1
      AND IS_DIALOGUE \<noteq> 0"
    unfolding initialize_flag_bits[OF e l] d by simp
  then have bp: "token_flags (initialize sort_keeping_ties quoted_vocab fresh_accelerator) ! 1
      AND IS_PUNCT \<noteq> 0"
    using t[THEN conjunct2, THEN conjunct2, THEN conjunct2, THEN conjunct2, THEN conjunct2,
        rule_format, OF e l]
    by simp
  show ?thesis
    using sort_keeping_ties_meets_spec d p s c f e l bd bp by simp
qed

subsection \<open>update_context\<close>

lemma match_context_conv_state [simp]:
  "conv_state (match_context vocab rk mk t z) = conv_state z"
  by (simp add: match_context_def Let_def)

lemma match_context_params [simp]:
  "params (match_context vocab rk mk t z) = params z"
  by (simp add: match_context_def Let_def)

lemma match_context_vocab_size [simp]:
  "vocab_size (match_context vocab rk mk t z) = vocab_size z"
  by (simp add: match_context_def Let_def)

lemma match_loop_conv_state:
  "conv_state (fold (match_context vocab rk mk) ts z) = conv_state z"
  by (rule fold_field_preserved) simp

lemma match_loop_params:
  "params (fold (match_context vocab rk mk) ts z) = params z"
  by (rule fold_field_preserved) simp

lemma match_context_role:
  "current_role_tokens (match_context vocab rk mk t z) =
     (if list_ex (\<lambda>keyword. find_str (to_lower (token_get_text vocab t)) keyword \<noteq> None) rk
      then insert t (current_role_tokens z) else current_role_tokens z)"
  by (simp add: match_context_def Let_def)

lemma match_context_mood:
  "current_mood_tokens (match_context vocab rk mk t z) =
     (if list_ex (\<lambda>keyword. find_str (to_lower (token_get_text vocab t)) keyword \<noteq> None) mk
      then insert t (current_mood_tokens z) else current_mood_tokens z)"
  by (simp add: match_context_def Let_def)

lemma match_loop_role:
  "current_role_tokens (fold (match_context vocab rk mk) ts z) =
     current_role_tokens z \<union>
       {t \<in> set ts. \<exists>k \<in> set rk. sublist k (to_lower (token_get_text vocab t))}"
  using fold_insert_field[where F = current_role_tokens and g = "\<lambda>t. t"
      and P = "\<lambda>t. list_ex (\<lambda>keyword. find_str (to_lower (token_get_text vocab t)) keyword \<noteq> None) rk"
      and step = "match_context vocab rk mk" and rs = ts and s = z, OF match_context_role]
  unfolding keyword_found_iff by simp

lemma match_loop_mood:
  "current_mood_tokens (fold (match_context vocab rk mk) ts z) =
     current_mood_tokens z \<union>
       {t \<in> set ts. \<exists>k \<in> set mk. sublist k (to_lower (token_get_text vocab t))}"
  using fold_insert_field[where F = current_mood_tokens and g = "\<lambda>t. t"
      and P = "\<lambda>t. list_ex (\<lambda>keyword. find_str (to_lower (token_get_text vocab t)) keyword \<noteq> None) mk"
      and step = "match_context vocab rk mk" and rs = ts and s = z, OF match_context_mood]
  unfolding keyword_found_iff by simp

lemma update_context_role:
  "current_role_tokens (update_context role mood vocab z) =
     {t. t < vocab_size z \<and>
         (\<exists>k \<in> set (get_role_keywords role). sublist k (to_lower (token_get_text vocab t)))}"
  by (simp add: update_context_def Let_def update_complexity_factor_def match_loop_role)

lemma update_context_mood:
  "current_mood_tokens (update_context role mood vocab z) =
     {t. t < vocab_size z \<and>
         (\<exists>k \<in> set (get_mood_keywords mood). sublist k (to_lower (token_get_text vocab t)))}"
  by (simp add: update_context_def Let_def update_complexity_factor_def match_loop_mood)

lemma unknown_role: "role \<notin> fst ` set role_map \<Longrightarrow> get_role_keywords role = []"
  by (simp add: get_role_keywords_def map_of_eq_None_iff[THEN iffD2])

lemma unknown_mood: "mood \<notin> fst ` set mood_map \<Longrightarrow> get_mood_keywords mood = []"
  by (simp add: get_mood_keywords_def map_of_eq_None_iff[THEN iffD2])

lemma guard_keywords:
  "get_role_keywords ''guard'' =
     [''guard'', ''watch'', ''protect'', ''duty'', ''patrol'', ''secure'', ''defend'']"
  by (simp add: get_role_keywords_def role_map_def)

text \<open>
  Claim C6. After \<^verbatim>\<open>update_context\<close> the role set holds exactly the tokens whose
  lower-cased text contains a keyword of the role, and the mood set likewise: nothing of
  the earlier sets is kept. For the role guard every member's lower-cased text contains
  one of the seven guard keywords. A role that is not in the role table gives the empty
  role set, a mood that is not in the mood table the empty mood set. The state's
  \<^verbatim>\<open>vocab_size\<close> must not exceed the vocabulary read.
\<close>

theorem update_context_matched_sets:
  assumes "vocab_size z \<le> n_tokens vocab"
  shows "current_role_tokens (update_context role mood vocab z) =
           {t. t < vocab_size z \<and>
               (\<exists>k \<in> set (get_role_keywords role). sublist k (to_lower (token_get_text vocab t)))}
       \<and> current_mood_tokens (update_context role mood vocab z) =
           {t. t < vocab_size z \<and>
               (\<exists>k \<in> set (get_mood_keywords mood). sublist k (to_lower (token_get_text vocab t)))}
       \<and> (\<forall>t \<in> current_role_tokens (update_context ''guard'' mood vocab z).
             \<exists>k \<in> {''guard'', ''watch'', ''protect'', ''duty'', ''patrol'', ''secure'', ''defend''}.
               sublist k (to_lower (token_get_text vocab t)))
       \<and> (role \<notin> fst ` set role_map \<longrightarrow> current_role_tokens (update_context role mood vocab z) = {})
       \<and> (mood \<notin> fst ` set mood_map \<longrightarrow> current_mood_tokens (update_context role mood vocab z) = {})"
proof -
  have "\<forall>t \<in> current_role_tokens (update_context ''guard'' mood vocab z).
      \<exists>k \<in> {''guard'', ''watch'', ''protect'', ''duty'', ''patrol'', ''secure'', ''defend''}.
        sublist k (to_lower (token_get_text vocab t))"
    unfolding update_context_role guard_keywords by simp
  then show ?thesis
    by (simp add: update_context_role update_context_mood unknown_role unknown_mood)
qed

lemma persona_texts:
  "to_lower (token_get_text persona_vocab 0) = ''guard''"
  "to_lower (token_get_text persona_vocab (Suc 0)) = ''watchful ale''"
  "to_lower (token_get_text persona_vocab 2) = ''happy''"
  by code_simp+

text \<open>
  The tokens \<open>Guard\<close>, \<open>WATCHful ale\<close> and \<open>happy\<close>: the first two match the role guard,
  the third the mood friendly, and no token matches the role pirate or the mood sleepy.
\<close>

theorem update_context_matched_sets_witness:
  "vocab_size persona_state \<le> n_tokens persona_vocab
   \<and> current_role_tokens persona_state = {2}
   \<and> current_role_tokens (update_context ''guard'' ''friendly'' persona_vocab persona_state) = {0, 1}
   \<and> current_mood_tokens (update_context ''guard'' ''friendly'' persona_vocab persona_state) = {2}
   \<and> ''pirate'' \<notin> fst ` set role_map \<and> ''sleepy'' \<notin> fst ` set mood_map
   \<and> current_role_tokens (update_context ''pirate'' ''sleepy'' persona_vocab persona_state) = {}
   \<and> current_mood_tokens (update_context ''pirate'' ''sleepy'' persona_vocab persona_state) = {}"
proof -
  have pre: "vocab_size persona_state \<le> n_tokens persona_vocab"
    by (simp add: persona_state_def persona_vocab_def n_tokens_def)
  note known = update_context_matched_sets[OF pre, of "''guard''" "''friendly''"]
  note unknown = update_context_matched_sets[OF pre, of "''pirate''" "''sleepy''"]
  have u: "''pirate'' \<notin> fst ` set role_map \<and> ''sleepy'' \<notin> fst ` set mood_map"
    by (simp add: role_map_def mood_map_def)
  have r: "current_role_tokens (update_context ''guard'' ''friendly'' persona_vocab persona_state) = {0, 1}"
    unfolding known[THEN conjunct1]
    by (auto simp: persona_state_def below_three persona_texts get_role_keywords_def role_map_def
        simp flip: find_str_iff)
  have m: "current_mood_tokens (update_context ''guard'' ''friendly'' persona_vocab persona_state) = {2}"
    unfolding known[THEN conjunct2, THEN conjunct1]
    by (auto simp: persona_state_def below_three persona_texts get_mood_keywords_def mood_map_def
        simp flip: find_str_iff)
  have s: "current_role_tokens persona_state = {2}"
    by (simp add: persona_state_def)
  show ?thesis
    using pre s r m u unknown by blast
qed

text \<open>
  Claim C1. The claim has the per-turn update append the length of the response to
  \<^verbatim>\<open>recent_lengths\<close>. \<^verbatim>\<open>update_context\<close> takes no response length and nothing in the
  class appends to the queue: a call drops the oldest entry of a queue of five or more
  and otherwise leaves the queue as it is, so the queue never grows. The turn counter
  goes up by one. On a new object the queue stays empty, the average is \<open>0\<close> whatever the
  responses were, and the complexity factor is multiplied by \<open>0.9\<close>.
\<close>

theorem update_context_never_appends:
  "recent_lengths (conv_state (update_context role mood vocab z)) =
     (if 5 \<le> length (recent_lengths (conv_state z))
      then tl (recent_lengths (conv_state z)) else recent_lengths (conv_state z))
   \<and> length (recent_lengths (conv_state (update_context role mood vocab z)))
       \<le> length (recent_lengths (conv_state z))
   \<and> turn_count (conv_state (update_context role mood vocab z)) = turn_count (conv_state z) + 1
   \<and> recent_lengths (conv_state (update_context role mood vocab fresh_accelerator)) = []
   \<and> complexity_factor (params (update_context role mood vocab fresh_accelerator)) = 0.9"
  by (simp add: update_context_def Let_def match_loop_conv_state match_loop_params
      update_complexity_factor_def fresh_accelerator_def clamp_def)

subsection \<open>Rounding to a nearest float\<close>

lemma f32I: "\<bar>m\<bar> \<le> 16777215 \<Longrightarrow> k \<le> 253 \<Longrightarrow> real_of_int m * 2 ^ k / 2 ^ 149 \<in> f32"
  unfolding f32_def by (rule image_eqI[of _ _ "(m, k)"]) auto

lemma f32E:
  assumes "f \<in> f32"
  obtains m k where "f = real_of_int m * 2 ^ k / 2 ^ 149" "\<bar>m\<bar> \<le> 16777215" "k \<le> 253"
  using assms unfolding f32_def by auto

lemma finite_f32: "finite f32"
  unfolding f32_def by (intro finite_imageI finite_cartesian_product) simp_all

lemma int_in_f32: "\<bar>i\<bar> \<le> 16777215 \<Longrightarrow> real_of_int i \<in> f32"
  using f32I[of i 149] by simp

lemma zero_in_f32: "0 \<in> f32"
  using int_in_f32[of 0] by simp

lemma one_in_f32: "1 \<in> f32"
  using int_in_f32[of 1] by simp

lemma pow2_div: "j \<le> N \<Longrightarrow> x * 2 ^ (N - j) / 2 ^ N = x / (2::real) ^ j"
proof -
  assume "j \<le> N"
  then have "(2::real) ^ N = 2 ^ (N - j) * 2 ^ j"
    by (simp flip: power_add)
  then show ?thesis
    by simp
qed

lemma pow2_mult: "x * 2 ^ (j + N) / 2 ^ N = x * (2::real) ^ j"
  by (simp add: power_add)

lemma dyadic_in_f32:
  assumes "\<bar>m\<bar> \<le> 16777215" "j \<le> 149"
  shows "real_of_int m / 2 ^ j \<in> f32"
proof -
  have "real_of_int m * 2 ^ (149 - j) / 2 ^ 149 \<in> f32"
    by (rule f32I) (use assms in simp_all)
  then show ?thesis
    by (simp only: pow2_div[OF assms(2)])
qed

lemma scaled_in_f32:
  assumes "\<bar>m\<bar> \<le> 16777215" "j \<le> 104"
  shows "real_of_int m * 2 ^ j \<in> f32"
proof -
  have "real_of_int m * 2 ^ (j + 149) / 2 ^ 149 \<in> f32"
    by (rule f32I) (use assms in simp_all)
  then show ?thesis
    by (simp only: pow2_mult)
qed


lemma nearest_round_f32: "nearest_f32 v (round_f32 v)"
  unfolding nearest_f32_def round_f32_def
  using arg_min_if_finite[OF finite_f32, of "\<lambda>f. \<bar>f - v\<bar>"] zero_in_f32
  by (auto simp: not_less)


lemma nearest_fix:
  assumes "nearest_f32 v r" "v \<in> f32"
  shows "r = v"
  using assms unfolding nearest_f32_def by fastforce











lemma round_f32_fix: "x \<in> f32 \<Longrightarrow> round_f32 x = x"
  using nearest_fix[OF nearest_round_f32] by blast

lemma round_f32_numeral [simp]:
  "(numeral n :: int) \<le> 16777215 \<Longrightarrow> round_f32 (numeral n) = numeral n"
  using round_f32_fix[OF int_in_f32[of "numeral n"]] by simp

lemma round_f32_simps [simp]:
  "round_f32 0 = 0" "round_f32 1 = 1" "round_f32 (1 / 2) = 1 / 2" "round_f32 (3 / 2) = 3 / 2"
  "round_f32 (1 / 4) = 1 / 4" "round_f32 (3 / 4) = 3 / 4"
  using round_f32_fix[OF zero_in_f32] round_f32_fix[OF one_in_f32]
    round_f32_fix[OF dyadic_in_f32[of 1 1]] round_f32_fix[OF dyadic_in_f32[of 3 1]]
    round_f32_fix[OF dyadic_in_f32[of 1 2]] round_f32_fix[OF dyadic_in_f32[of 3 2]]
  by simp_all


lemma f32_below_or_integer:
  assumes "f \<in> f32"
  obtains "\<bar>f\<bar> \<le> 16777215 / 2" | i where "f = real_of_int i"
proof -
  from assms obtain m k where f: "f = real_of_int m * 2 ^ k / 2 ^ 149"
    and m: "\<bar>m\<bar> \<le> 16777215" and k: "k \<le> 253"
    by (rule f32E)
  show ?thesis
  proof (cases "k \<le> 148")
    case True
    have "\<bar>real_of_int m\<bar> * 2 ^ k \<le> 16777215 * 2 ^ 148"
    proof (rule mult_mono)
      show "\<bar>real_of_int m\<bar> \<le> 16777215"
        using m by linarith
      show "(2::real) ^ k \<le> 2 ^ 148"
        using True by (intro power_increasing) simp_all
    qed simp_all
    then have "\<bar>real_of_int m\<bar> * 2 ^ k / 2 ^ 149 \<le> 16777215 * 2 ^ 148 / 2 ^ 149"
      by (rule divide_right_mono) simp
    then have "\<bar>f\<bar> \<le> 16777215 / 2"
      by (simp add: f abs_mult)
    then show ?thesis
      by (rule that(1))
  next
    case False
    define j where "j = k - 149"
    have j: "k = j + 149"
      using False by (simp add: j_def)
    have "f = real_of_int m * 2 ^ j"
      unfolding f j by (rule pow2_mult)
    then have "f = real_of_int (m * 2 ^ j)"
      by simp
    then show ?thesis
      by (rule that(2))
  qed
qed


lemma f32_below_or_even:
  assumes "f \<in> f32"
  obtains "\<bar>f\<bar> \<le> 16777215" | i where "f = 2 * real_of_int i"
proof -
  from assms obtain m k where f: "f = real_of_int m * 2 ^ k / 2 ^ 149"
    and m: "\<bar>m\<bar> \<le> 16777215" and k: "k \<le> 253"
    by (rule f32E)
  show ?thesis
  proof (cases "k \<le> 149")
    case True
    have "\<bar>real_of_int m\<bar> * 2 ^ k \<le> 16777215 * 2 ^ 149"
    proof (rule mult_mono)
      show "\<bar>real_of_int m\<bar> \<le> 16777215"
        using m by linarith
      show "(2::real) ^ k \<le> 2 ^ 149"
        using True by (intro power_increasing) simp_all
    qed simp_all
    then have "\<bar>real_of_int m\<bar> * 2 ^ k / 2 ^ 149 \<le> 16777215 * 2 ^ 149 / 2 ^ 149"
      by (rule divide_right_mono) simp
    then have "\<bar>f\<bar> \<le> 16777215"
      by (simp add: f abs_mult)
    then show ?thesis
      by (rule that(1))
  next
    case False
    define j where "j = k - 150"
    have j: "k = Suc j + 149"
      using False by (simp add: j_def)
    have "f = real_of_int m * 2 ^ Suc j"
      unfolding f j by (rule pow2_mult)
    then have "f = 2 * real_of_int (m * 2 ^ j)"
      by simp
    then show ?thesis
      by (rule that(2))
  qed
qed

lemma nearest_below_2_24:
  assumes "nearest_f32 v r" "16777215 + 1 / 2 < v" "v \<le> 16777216"
  shows "r = 16777216"
proof -
  have "(16777216::real) \<in> f32"
    using scaled_in_f32[of 1 24] by simp
  then have "\<bar>r - v\<bar> \<le> \<bar>16777216 - v\<bar>"
    using assms(1) unfolding nearest_f32_def by blast
  with assms(2,3) have b: "16777215 < r" "r \<le> 16777216"
    by linarith+
  from assms(1) have "r \<in> f32"
    by (simp add: nearest_f32_def)
  then show ?thesis
  proof (cases rule: f32_below_or_integer)
    case 1
    with b(1) show ?thesis
      by linarith
  next
    case (2 i)
    with b have "16777215 < real_of_int i" "real_of_int i \<le> 16777216"
      by simp_all
    then have "16777215 < i" "i \<le> 16777216"
      by linarith+
    then have "i = 16777216"
      by simp
    with 2 show ?thesis
      by simp
  qed
qed

lemma nearest_above_2_24:
  assumes "nearest_f32 v r" "16777216 \<le> v" "v < 16777217"
  shows "r = 16777216"
proof -
  have "(16777216::real) \<in> f32"
    using scaled_in_f32[of 1 24] by simp
  then have "\<bar>r - v\<bar> \<le> \<bar>16777216 - v\<bar>"
    using assms(1) unfolding nearest_f32_def by blast
  with assms(2,3) have b: "16777216 \<le> r" "r < 16777218"
    by linarith+
  from assms(1) have "r \<in> f32"
    by (simp add: nearest_f32_def)
  then show ?thesis
  proof (cases rule: f32_below_or_even)
    case 1
    with b(1) show ?thesis
      by linarith
  next
    case (2 i)
    with b have "16777215 < 2 * real_of_int i" "2 * real_of_int i < 16777218"
      by simp_all
    then have "16777215 < 2 * i" "2 * i < 16777218"
      by linarith+
    then have "i = 8388608"
      by simp
    with 2 show ?thesis
      by simp
  qed
qed

lemma round_up_to_2_24: "round_f32 (16777215 + 3 / 4) = 16777216"
  by (rule nearest_below_2_24[OF nearest_round_f32]) simp_all

lemma round_back_to_2_24: "round_f32 (16777216 + 3 / 4) = 16777216"
  by (rule nearest_above_2_24[OF nearest_round_f32]) simp_all


subsection \<open>accelerate_logits\<close>

lemma length_add_to_tokens [simp]: "length (add_to_tokens S b l) = length l"
  by (simp add: add_to_tokens_def)

lemma nth_add_to_tokens:
  "t < length l \<Longrightarrow> add_to_tokens S b l ! t = (if t \<in> S then l ! t + b else l ! t)"
  by (simp add: add_to_tokens_def)

lemma length_suppress [simp]: "length (suppress_dialogue_enders z l) = length l"
  by (simp add: suppress_dialogue_enders_def)

lemma nth_suppress:
  "t < length l \<Longrightarrow> suppress_dialogue_enders z l ! t =
     (if t \<in> dialogue_tokens z \<and> t \<in> punctuation z then l ! t - 2 else l ! t)"
  by (simp add: suppress_dialogue_enders_def)

lemma length_dialogue_flow [simp]: "length (dialogue_flow z m l) = length l"
  by (simp add: dialogue_flow_def Let_def boost_dialogue_enders_def)



lemma length_apply_base_bias [simp]: "length (apply_base_bias z l) = length l"
  by (simp add: apply_base_bias_def length_fold_update)

lemma nth_apply_base_bias:
  "t < length l \<Longrightarrow> apply_base_bias z l ! t =
     (if t < vocab_size z then l ! t + base_logit_bias z ! t * complexity_factor (params z)
      else l ! t)"
  unfolding apply_base_bias_def by (rule nth_fold_add)

lemma length_apply_context_boosts [simp]: "length (apply_context_boosts z c l) = length l"
  by (simp add: apply_context_boosts_def Let_def)

lemma length_apply_conversation_patterns [simp]:
  "length (apply_conversation_patterns z l c) = length l"
  by (simp add: apply_conversation_patterns_def)

lemma length_accelerate_logits [simp]: "length (accelerate_logits z l c m) = length l"
  by (simp add: accelerate_logits_def)

lemma nth_accelerate_logits:
  "t < length l \<Longrightarrow> accelerate_logits z l c m ! t = l ! t + net_bias z c m t"
  by (simp add: accelerate_logits_def net_bias_def apply_conversation_patterns_def
      dialogue_flow_def boost_dialogue_enders_def nth_suppress nth_add_to_tokens
      apply_context_boosts_def nth_apply_base_bias Let_def split: option.split)

lemma length_add_to_tokens_f32 [simp]: "length (add_to_tokens_f32 rnd S b l) = length l"
  by (simp add: add_to_tokens_f32_def)



lemma length_apply_base_bias_f32 [simp]: "length (apply_base_bias_f32 rnd z l) = length l"
  by (simp add: apply_base_bias_f32_def length_fold_update)


lemma length_apply_context_boosts_f32 [simp]:
  "length (apply_context_boosts_f32 rnd z c l) = length l"
  by (simp add: apply_context_boosts_f32_def Let_def)

lemma length_dialogue_flow_f32 [simp]: "length (dialogue_flow_f32 rnd z m l) = length l"
  by (simp add: dialogue_flow_f32_def Let_def boost_dialogue_enders_f32_def
      suppress_dialogue_enders_f32_def)

lemma length_accelerate_logits_f32 [simp]:
  "length (accelerate_logits_f32 rnd z l c m) = length l"
  by (simp add: accelerate_logits_f32_def apply_conversation_patterns_f32_def)





lemma exact_stages:
  "add_to_tokens_f32 (\<lambda>x. x) S b l = add_to_tokens S b l"
  "apply_base_bias_f32 (\<lambda>x. x) z l = apply_base_bias z l"
  "suppress_dialogue_enders_f32 (\<lambda>x. x) z l = suppress_dialogue_enders z l"
  "completion_ratio_f32 (\<lambda>x. x) m = completion_ratio m"
  "apply_conversation_patterns_f32 (\<lambda>x. x) z l c = apply_conversation_patterns z l c"
  by (simp_all add: add_to_tokens_f32_def add_to_tokens_def apply_base_bias_f32_def
      apply_base_bias_def suppress_dialogue_enders_f32_def suppress_dialogue_enders_def
      completion_ratio_f32_def completion_ratio_def apply_conversation_patterns_f32_def
      apply_conversation_patterns_def)

lemma exact_context_boosts:
  "apply_context_boosts_f32 (\<lambda>x. x) z c l = apply_context_boosts z c l"
  by (simp add: apply_context_boosts_f32_def apply_context_boosts_def exact_stages Let_def)

lemma exact_dialogue_flow: "dialogue_flow_f32 (\<lambda>x. x) z m l = dialogue_flow z m l"
  by (simp add: dialogue_flow_f32_def dialogue_flow_def boost_dialogue_enders_f32_def
      boost_dialogue_enders_def exact_stages Let_def)

lemma accelerate_logits_exact:
  "accelerate_logits_f32 (\<lambda>x. x) z l c m = accelerate_logits z l c m"
  by (simp only: accelerate_logits_f32_def accelerate_logits_def exact_stages
      exact_context_boosts exact_dialogue_flow)






lemma round_f32_2_24 [simp]: "round_f32 16777216 = 16777216"
  using round_f32_fix[OF scaled_in_f32[of 1 24]] by simp

lemma round_f32_near_2_24 [simp]:
  "round_f32 (67108863 / 4) = 16777216" "round_f32 (67108867 / 4) = 16777216"
  using round_up_to_2_24 round_back_to_2_24 by simp_all










subsection \<open>Loops over unordered containers\<close>

text \<open>
  The loops of the source over a set of tokens or over the entries of the frequency map,
  run over the members in any order, give what the cell-by-cell definitions give.
\<close>

lemma nth_fold_add_tokens:
  assumes "distinct ts" "i < length l"
  shows "fold (\<lambda>t l. l[t := l ! t + b]) ts l ! i = (if i \<in> set ts then l ! i + b else l ! i)"
  using assms
proof (induction ts arbitrary: l)
  case Nil
  then show ?case by simp
next
  case (Cons t ts)
  then show ?case
    by (cases "i = t") (auto simp: nth_list_update)
qed

lemma add_to_tokens_any_order:
  assumes "distinct ts" "set ts = S"
  shows "fold (\<lambda>t l. l[t := l ! t + b]) ts logits = add_to_tokens S b logits"
proof (rule nth_equalityI)
  show "length (fold (\<lambda>t l. l[t := l ! t + b]) ts logits) = length (add_to_tokens S b logits)"
    by (simp add: length_fold_update)
next
  fix i
  assume "i < length (fold (\<lambda>t l. l[t := l ! t + b]) ts logits)"
  then have "i < length logits"
    by (simp add: length_fold_update)
  then show "fold (\<lambda>t l. l[t := l ! t + b]) ts logits ! i = add_to_tokens S b logits ! i"
    using assms by (simp add: nth_fold_add_tokens nth_add_to_tokens)
qed

lemma nth_fold_or_flag:
  assumes "i < length fl"
  shows "fold (\<lambda>t fl. fl[t := fl ! t OR b]) ts fl ! i = (if i \<in> set ts then fl ! i OR b else fl ! i)"
  using assms
proof (induction ts arbitrary: fl)
  case Nil
  then show ?case by simp
next
  case (Cons t ts)
  then show ?case
    by (cases "i = t") (auto simp: nth_list_update or.assoc)
qed

lemma or_flag_any_order:
  assumes "set ts = S"
  shows "fold (\<lambda>t fl. fl[t := fl ! t OR b]) ts flags = or_flag S b flags"
proof (rule nth_equalityI)
  show "length (fold (\<lambda>t fl. fl[t := fl ! t OR b]) ts flags) = length (or_flag S b flags)"
    by (simp add: length_fold_update)
next
  fix i
  assume "i < length (fold (\<lambda>t fl. fl[t := fl ! t OR b]) ts flags)"
  then have "i < length flags"
    by (simp add: length_fold_update)
  then show "fold (\<lambda>t fl. fl[t := fl ! t OR b]) ts flags ! i = or_flag S b flags ! i"
    using assms by (simp add: nth_fold_or_flag nth_or_flag)
qed

lemma length_fold_guarded_update:
  "length (fold (\<lambda>t l. if t \<in> P then l[t := f (l ! t)] else l) ts l) = length l"
  by (induction ts arbitrary: l) simp_all

lemma nth_fold_guarded_update:
  assumes "distinct ts" "i < length l"
  shows "fold (\<lambda>t l. if t \<in> P then l[t := f (l ! t)] else l) ts l ! i
           = (if i \<in> set ts \<and> i \<in> P then f (l ! i) else l ! i)"
  using assms
proof (induction ts arbitrary: l)
  case Nil
  show ?case by simp
next
  case (Cons t ts)
  with Cons.IH[of "if t \<in> P then l[t := f (l ! t)] else l"] show ?case
    by (cases "i = t") (auto simp: nth_list_update)
qed

lemma fold_guarded_update:
  assumes "distinct ts"
  shows "fold (\<lambda>t l. if t \<in> P then l[t := f (l ! t)] else l) ts l
           = map (\<lambda>t. if t \<in> set ts \<and> t \<in> P then f (l ! t) else l ! t) [0..<length l]"
  using assms
  by (intro nth_equalityI) (simp_all add: nth_fold_guarded_update length_fold_guarded_update)

lemma suppress_any_order:
  assumes "distinct ts" "set ts = dialogue_tokens z"
  shows "fold (\<lambda>t l. if t \<in> punctuation z then l[t := l ! t - 2.0] else l) ts logits
           = suppress_dialogue_enders z logits"
  unfolding suppress_dialogue_enders_def assms(2)[symmetric]
  by (rule fold_guarded_update[OF assms(1)])

lemma length_fold_entries:
  "length (fold (\<lambda>(t, v) l. if Q v then l[t := f (l ! t)] else l) kvs l) = length l"
  by (induction kvs arbitrary: l) (simp_all add: case_prod_beta)

lemma nth_fold_entries:
  assumes "distinct (map fst kvs)" "i < length l"
  shows "fold (\<lambda>(t, v) l. if Q v then l[t := f (l ! t)] else l) kvs l ! i
           = (case map_of kvs i of None \<Rightarrow> l ! i
              | Some v \<Rightarrow> if Q v then f (l ! i) else l ! i)"
  using assms
proof (induction kvs arbitrary: l)
  case Nil
  show ?case by simp
next
  case (Cons kv kvs)
  obtain t v where kv: "kv = (t, v)"
    by (cases kv)
  from Cons.prems have "map_of kvs t = None"
    by (simp add: kv map_of_eq_None_iff)
  with Cons.prems Cons.IH[of "if Q v then l[t := f (l ! t)] else l"] show ?case
    by (cases "i = t") (auto simp: kv nth_list_update split: option.split)
qed

lemma fold_entries:
  assumes "distinct (map fst kvs)"
  shows "fold (\<lambda>(t, v) l. if Q v then l[t := f (l ! t)] else l) kvs l
           = map (\<lambda>t. case map_of kvs t of None \<Rightarrow> l ! t
                      | Some v \<Rightarrow> if Q v then f (l ! t) else l ! t) [0..<length l]"
  using assms
  by (intro nth_equalityI)
     (simp_all add: nth_fold_entries length_fold_entries split: option.split)

lemma patterns_any_order:
  assumes "distinct (map fst kvs)" "map_of kvs = turn_frequencies (conv_state z)"
  shows "fold (\<lambda>(t, freq) l. if freq > 0.1 then l[t := l ! t + 0.2 * pattern_strength (params z)] else l)
           kvs logits = apply_conversation_patterns z logits c"
  unfolding apply_conversation_patterns_def assms(2)[symmetric]
  by (rule fold_entries[OF assms(1)])

subsection \<open>The repetition penalty\<close>























end
